theory Spec2Isabelle
  imports Complex_Main "HOL-Library.Sublist"
begin

section \<open>Python values and exceptions\<close>

text \<open>
  Every exception the modelled code can raise is a value; a function that can raise
  returns \<open>error + 'a\<close> with the exception on the left.
\<close>

datatype error =
    IndexError
  | StopIteration
  | FileNotFoundError
  | ZeroDivisionError
  | NameError
  | ValueError string

text \<open>\<open>f"{n}"\<close> for a non-negative integer: its decimal digits.\<close>

fun show_nat :: "nat \<Rightarrow> string" where
  "show_nat n =
     (if n < 10 then [char_of (48 + n)]
      else show_nat (n div 10) @ [char_of (48 + n mod 10)])"

declare show_nat.simps [simp del]

section \<open>Floats\<close>

text \<open>
  A Python or numpy float: a finite number, an infinity, or not-a-number. Finite values
  are exact rationals here: rounding and the sign of zero are not modelled, and
  overflow to an infinity only in the arithmetic of arrays.
\<close>

datatype pyfloat = Fin rat | PosInf | NegInf | NaN

text \<open>\<open>a < b\<close> on floats: false whenever an operand is not-a-number.\<close>

fun float_lt :: "pyfloat \<Rightarrow> pyfloat \<Rightarrow> bool" where
  "float_lt NaN _ = False"
| "float_lt _ NaN = False"
| "float_lt (Fin a) (Fin b) = (a < b)"
| "float_lt _ NegInf = False"
| "float_lt PosInf _ = False"
| "float_lt NegInf _ = True"
| "float_lt _ PosInf = True"

text \<open>
  Addition, subtraction and absolute value: not-a-number is absorbing, and the sum of
  the two infinities (the difference of an infinity and itself) is not-a-number.
\<close>

instantiation pyfloat :: comm_monoid_add
begin

definition zero_pyfloat :: pyfloat where
  "zero_pyfloat = Fin 0"

fun plus_pyfloat :: "pyfloat \<Rightarrow> pyfloat \<Rightarrow> pyfloat" where
  "plus_pyfloat NaN b = NaN"
| "plus_pyfloat a NaN = NaN"
| "plus_pyfloat (Fin a) (Fin b) = Fin (a + b)"
| "plus_pyfloat PosInf NegInf = NaN"
| "plus_pyfloat NegInf PosInf = NaN"
| "plus_pyfloat PosInf b = PosInf"
| "plus_pyfloat a PosInf = PosInf"
| "plus_pyfloat NegInf b = NegInf"
| "plus_pyfloat a NegInf = NegInf"

lemma float_sum_swap: "u + v = v + (u :: pyfloat)"
  by (cases u; cases v) simp_all

lemma float_sum_regroup: "u + v + w = u + (v + (w :: pyfloat))"
  by (cases u; cases v; cases w) simp_all

lemma float_sum_zero: "Fin 0 + u = u"
  by (cases u) simp_all

instance
proof (standard, goal_cases)
  case 1
  show ?case by (rule float_sum_regroup)
next
  case 2
  show ?case by (rule float_sum_swap)
next
  case 3
  show ?case unfolding zero_pyfloat_def by (rule float_sum_zero)
qed

end

instantiation pyfloat :: "{one, uminus, minus, abs}"
begin

definition one_pyfloat :: pyfloat where
  "one_pyfloat = Fin 1"

fun uminus_pyfloat :: "pyfloat \<Rightarrow> pyfloat" where
  "uminus_pyfloat (Fin a) = Fin (- a)"
| "uminus_pyfloat PosInf = NegInf"
| "uminus_pyfloat NegInf = PosInf"
| "uminus_pyfloat NaN = NaN"

definition minus_pyfloat :: "pyfloat \<Rightarrow> pyfloat \<Rightarrow> pyfloat" where
  "minus_pyfloat a b = a + (- b)"

fun abs_pyfloat :: "pyfloat \<Rightarrow> pyfloat" where
  "abs_pyfloat (Fin a) = Fin \<bar>a\<bar>"
| "abs_pyfloat PosInf = PosInf"
| "abs_pyfloat NegInf = PosInf"
| "abs_pyfloat NaN = NaN"

instance ..

end

text \<open>
  numpy's \<open>x / m\<close> on finite numbers: division by zero does not raise, it warns and
  yields not-a-number for \<open>0 / 0\<close> and an infinity otherwise.
\<close>

definition np_div :: "rat \<Rightarrow> rat \<Rightarrow> pyfloat" where
  "np_div x m =
     (if m \<noteq> 0 then Fin (x / m)
      else if x = 0 then NaN else if 0 < x then PosInf else NegInf)"

text \<open>The same on all floats.\<close>

fun float_div :: "pyfloat \<Rightarrow> pyfloat \<Rightarrow> pyfloat" where
  "float_div NaN _ = NaN"
| "float_div _ NaN = NaN"
| "float_div (Fin a) (Fin b) = np_div a b"
| "float_div (Fin a) _ = Fin 0"
| "float_div PosInf (Fin b) = (if 0 \<le> b then PosInf else NegInf)"
| "float_div NegInf (Fin b) = (if 0 \<le> b then NegInf else PosInf)"
| "float_div _ _ = NaN"

text \<open>
  Python's \<open>x / n\<close> for a float and \<open>len(...)\<close>: unlike numpy it raises on a zero
  divisor.
\<close>

definition py_float_div :: "pyfloat \<Rightarrow> nat \<Rightarrow> error + pyfloat" where
  "py_float_div x n =
     (if n = 0 then Inl ZeroDivisionError else Inr (float_div x (Fin (of_nat n))))"

section \<open>The ASOCA directory on disk\<close>

text \<open>
  A volume read by \<open>nrrd.read\<close> is kept as the list of its cross-sections along the last
  axis, so \<open>data.shape[-1]\<close> is the length of the list and \<open>data[:, :, k]\<close> is its
  \<open>k\<close>-th element. A cross-section is an array with the element type of the file:
  \<open>IntArray signed bits xs\<close> holds integers of the given signedness and width (int16 is
  \<open>IntArray True 16\<close>), \<open>FloatArray kind xs\<close> holds floats of the given width; the pixels
  are listed in any fixed order. A directory is the list of its entries in the order in which the
  operating system lists them, which is the order \<open>Path.glob\<close> yields them in.
\<close>

datatype float_kind = Float16 | Float32 | Float64

datatype ndarray = IntArray bool nat "int list" | FloatArray float_kind "pyfloat list"

type_synonym slice = ndarray
type_synonym volume = "slice list"
type_synonym directory = "(string \<times> volume) list"

record asoca_dir =
  n_ctca :: directory
  n_anno :: directory
  d_ctca :: directory
  d_anno :: directory

text \<open>\<open>dir.glob(f"{pre}*")\<close>: the names in the directory that start with \<open>pre\<close>.\<close>

definition glob :: "directory \<Rightarrow> string \<Rightarrow> string list" where
  "glob dir pre = filter (prefix pre) (map fst dir)"

text \<open>\<open>next(iter(xs))\<close>.\<close>

definition next_iter :: "'a list \<Rightarrow> error + 'a" where
  "next_iter xs = (case xs of [] \<Rightarrow> Inl StopIteration | x # _ \<Rightarrow> Inr x)"

definition nrrd_read :: "directory \<Rightarrow> string \<Rightarrow> error + volume" where
  "nrrd_read dir name =
     (case map_of dir name of None \<Rightarrow> Inl FileNotFoundError | Some v \<Rightarrow> Inr v)"

text \<open>\<open>data[:, :, k]\<close> with numpy's rule for a negative index.\<close>

definition last_axis :: "volume \<Rightarrow> int \<Rightarrow> error + slice" where
  "last_axis data k =
     (let n = int (length data); j = (if k < 0 then k + n else k)
      in if 0 \<le> j \<and> j < n then Inr (data ! nat j) else Inl IndexError)"

section \<open>The dataset indexer (\<open>mis/datasets/asoca.py\<close>)\<close>

subsection \<open>\<open>get_num_slices\<close>\<close>

text \<open>
  One of the two \<open>for i in range(count)\<close> loops: it reads \<open>{grp}_{i+1}.nrrd\<close> and appends
  the extent of its last axis to \<open>num_slices\<close>.
\<close>

definition patient_file :: "string \<Rightarrow> nat \<Rightarrow> string" where
  "patient_file grp i = grp @ ''_'' @ show_nat (i + 1) @ ''.nrrd''"

fun read_counts :: "directory \<Rightarrow> string \<Rightarrow> nat list \<Rightarrow> nat list \<Rightarrow> error + nat list" where
  "read_counts dir grp [] num_slices = Inr num_slices"
| "read_counts dir grp (i # is) num_slices =
     (case nrrd_read dir (patient_file grp i) of
        Inl e \<Rightarrow> Inl e
      | Inr data \<Rightarrow> read_counts dir grp is (num_slices @ [length data]))"

definition get_num_slices :: "asoca_dir \<Rightarrow> error + (nat list \<times> nat \<times> nat)" where
  "get_num_slices fs =
     (let num_normal = length (glob (n_ctca fs) ''Normal'');
          num_diseased = length (glob (d_ctca fs) ''Diseased'')
      in case read_counts (n_ctca fs) ''Normal'' [0..<num_normal] [] of
           Inl e \<Rightarrow> Inl e
         | Inr ns \<Rightarrow>
             (case read_counts (d_ctca fs) ''Diseased'' [0..<num_diseased] ns of
                Inl e \<Rightarrow> Inl e
              | Inr num_slices \<Rightarrow> Inr (num_slices, num_normal, num_diseased)))"

subsection \<open>\<open>__init__\<close> and \<open>__len__\<close>\<close>

text \<open>\<open>np.asarray(xs).cumsum()\<close>, with the running total as accumulator.\<close>

fun cumsum_from :: "nat \<Rightarrow> nat list \<Rightarrow> nat list" where
  "cumsum_from acc [] = []"
| "cumsum_from acc (x # xs) = (acc + x) # cumsum_from (acc + x) xs"

definition cumsum :: "nat list \<Rightarrow> nat list" where
  "cumsum xs = cumsum_from 0 xs"

record asoca_dataset =
  norm_opt :: bool
  data_dir :: asoca_dir
  num_slices :: "nat list"
  num_normal :: nat
  num_diseased :: nat
  slice_cumsums :: "nat list"

definition init :: "bool \<Rightarrow> asoca_dir \<Rightarrow> error + asoca_dataset" where
  "init nrm fs =
     (case get_num_slices fs of
        Inl e \<Rightarrow> Inl e
      | Inr (ns, nn, nd) \<Rightarrow>
          Inr \<lparr>norm_opt = nrm, data_dir = fs, num_slices = ns, num_normal = nn,
               num_diseased = nd, slice_cumsums = cumsum ns\<rparr>)"

text \<open>Python's \<open>sum(xs)\<close> adds from the left, starting at 0.\<close>

definition py_sum :: "'a::monoid_add list \<Rightarrow> 'a" where
  "py_sum xs = foldl (+) 0 xs"

definition len :: "asoca_dataset \<Rightarrow> nat" where
  "len ds = py_sum (num_slices ds)"

subsection \<open>\<open>__getitem__\<close>\<close>

text \<open>\<open>np.argwhere(cs > index)[0, 0]\<close>: the first position whose entry exceeds \<open>index\<close>.\<close>

definition argwhere_gt :: "nat list \<Rightarrow> int \<Rightarrow> nat list" where
  "argwhere_gt cs index = filter (\<lambda>p. index < int (cs ! p)) [0..<length cs]"

definition first_gt :: "nat list \<Rightarrow> int \<Rightarrow> error + nat" where
  "first_gt cs index = (case argwhere_gt cs index of [] \<Rightarrow> Inl IndexError | p # _ \<Rightarrow> Inr p)"

text \<open>Python's \<open>a % b\<close> on integers; the sign follows the divisor, as HOL's \<open>mod\<close> does.\<close>

definition py_mod :: "int \<Rightarrow> int \<Rightarrow> error + int" where
  "py_mod a b = (if b = 0 then Inl ZeroDivisionError else Inr (a mod b))"

text \<open>
  \<open>patient_idx\<close> is a numpy integer, so \<open>patient_idx % n\<close> is numpy's remainder: it warns
  and yields 0 for \<open>n = 0\<close> where HOL's \<open>mod\<close> yields the dividend.
\<close>

definition np_mod :: "nat \<Rightarrow> nat \<Rightarrow> nat" where
  "np_mod a b = (if b = 0 then 0 else a mod b)"

text \<open>Lines 35-36: the patient position and the slice index.\<close>

definition resolve :: "asoca_dataset \<Rightarrow> int \<Rightarrow> error + (nat \<times> int)" where
  "resolve ds index =
     (case first_gt (slice_cumsums ds) index of
        Inl e \<Rightarrow> Inl e
      | Inr patient_idx \<Rightarrow>
          (case py_mod index (int (num_slices ds ! patient_idx)) of
             Inl e \<Rightarrow> Inl e
           | Inr slice_idx \<Rightarrow> Inr (patient_idx, slice_idx)))"

text \<open>Lines 38-43: the glob prefixes, and the first file each glob yields.\<close>

datatype cohort = Normal | Diseased

definition patient_pattern :: "asoca_dataset \<Rightarrow> nat \<Rightarrow> cohort \<times> nat" where
  "patient_pattern ds patient_idx =
     (if patient_idx < num_normal ds then (Normal, patient_idx + 1)
      else (Diseased, np_mod patient_idx (num_normal ds) + 1))"

definition pattern_prefix :: "cohort \<times> nat \<Rightarrow> string" where
  "pattern_prefix pat =
     (case pat of (Normal, k) \<Rightarrow> ''Normal_'' @ show_nat k
                | (Diseased, k) \<Rightarrow> ''Diseased_'' @ show_nat k)"

definition ctca_dir :: "asoca_dataset \<Rightarrow> cohort \<Rightarrow> directory" where
  "ctca_dir ds c = (case c of Normal \<Rightarrow> n_ctca (data_dir ds) | Diseased \<Rightarrow> d_ctca (data_dir ds))"

definition anno_dir :: "asoca_dataset \<Rightarrow> cohort \<Rightarrow> directory" where
  "anno_dir ds c = (case c of Normal \<Rightarrow> n_anno (data_dir ds) | Diseased \<Rightarrow> d_anno (data_dir ds))"

definition item_paths :: "asoca_dataset \<Rightarrow> nat \<Rightarrow> error + (cohort \<times> string \<times> string)" where
  "item_paths ds patient_idx =
     (let pat = patient_pattern ds patient_idx; c = fst pat
      in case next_iter (glob (ctca_dir ds c) (pattern_prefix pat)) of
           Inl e \<Rightarrow> Inl e
         | Inr ctca_path \<Rightarrow>
             (case next_iter (glob (anno_dir ds c) (pattern_prefix pat)) of
                Inl e \<Rightarrow> Inl e
              | Inr anno_path \<Rightarrow> Inr (c, ctca_path, anno_path)))"

subsection \<open>numpy arithmetic\<close>

text \<open>
  Integer arithmetic of numpy wraps silently to the width of the element type: in two's
  complement for a signed type, modulo \<open>2 ^ bits\<close> for an unsigned one.
\<close>

definition wrap :: "bool \<Rightarrow> nat \<Rightarrow> int \<Rightarrow> int" where
  "wrap sg bits x =
     (if sg then (x + 2 ^ (bits - 1)) mod 2 ^ bits - 2 ^ (bits - 1) else x mod 2 ^ bits)"

text \<open>A numpy scalar, as \<open>a.min()\<close> and \<open>a.max()\<close> return it.\<close>

datatype scalar = IntScalar int | FloatScalar pyfloat

definition scalar_float :: "scalar \<Rightarrow> pyfloat" where
  "scalar_float s = (case s of IntScalar i \<Rightarrow> Fin (of_int i) | FloatScalar x \<Rightarrow> x)"

text \<open>
  The largest finite value of a float type; a result beyond it is an infinity. This is
  the only rounding that is modelled.
\<close>

definition largest :: "float_kind \<Rightarrow> rat" where
  "largest k =
     (case k of Float16 \<Rightarrow> 65504
              | Float32 \<Rightarrow> (2 ^ 24 - 1) * 2 ^ 104
              | Float64 \<Rightarrow> (2 ^ 53 - 1) * 2 ^ 971)"

definition overflow :: "float_kind \<Rightarrow> pyfloat \<Rightarrow> pyfloat" where
  "overflow k x =
     (case x of
        Fin r \<Rightarrow> if largest k < r then PosInf else if r < - largest k then NegInf else Fin r
      | _ \<Rightarrow> x)"

text \<open>
  The least and the greatest of a non-empty list of floats; numpy returns
  not-a-number as soon as one element is not-a-number.
\<close>

definition float_least :: "pyfloat list \<Rightarrow> pyfloat" where
  "float_least xs =
     (if NaN \<in> set xs then NaN
      else foldl (\<lambda>a b. if float_lt b a then b else a) (hd xs) (tl xs))"

definition float_greatest :: "pyfloat list \<Rightarrow> pyfloat" where
  "float_greatest xs =
     (if NaN \<in> set xs then NaN
      else foldl (\<lambda>a b. if float_lt a b then b else a) (hd xs) (tl xs))"

text \<open>\<open>a.min()\<close> and \<open>a.max()\<close> raise ValueError on an array without elements.\<close>

definition amin :: "ndarray \<Rightarrow> error + scalar" where
  "amin a =
     (case a of
        IntArray sg bits xs \<Rightarrow>
          if xs = [] then Inl (ValueError ''zero-size array'') else Inr (IntScalar (Min (set xs)))
      | FloatArray k xs \<Rightarrow>
          if xs = [] then Inl (ValueError ''zero-size array'')
          else Inr (FloatScalar (float_least xs)))"

definition amax :: "ndarray \<Rightarrow> error + scalar" where
  "amax a =
     (case a of
        IntArray sg bits xs \<Rightarrow>
          if xs = [] then Inl (ValueError ''zero-size array'') else Inr (IntScalar (Max (set xs)))
      | FloatArray k xs \<Rightarrow>
          if xs = [] then Inl (ValueError ''zero-size array'')
          else Inr (FloatScalar (float_greatest xs)))"

text \<open>
  \<open>a - s\<close> for an array and a scalar: within the integer type of the array when both
  are integers, in the float type of the array when it has one, in float64 otherwise.
\<close>

definition np_sub :: "ndarray \<Rightarrow> scalar \<Rightarrow> ndarray" where
  "np_sub a s =
     (case a of
        IntArray sg bits xs \<Rightarrow>
          (case s of
             IntScalar lo \<Rightarrow> IntArray sg bits (map (\<lambda>x. wrap sg bits (x - lo)) xs)
           | FloatScalar lo \<Rightarrow>
               FloatArray Float64 (map (\<lambda>x. overflow Float64 (Fin (of_int x) - lo)) xs))
      | FloatArray k xs \<Rightarrow> FloatArray k (map (\<lambda>x. overflow k (x - scalar_float s)) xs))"

text \<open>\<open>np.abs(a)\<close>, in the element type of the array.\<close>

definition np_abs :: "ndarray \<Rightarrow> ndarray" where
  "np_abs a =
     (case a of
        IntArray sg bits xs \<Rightarrow> IntArray sg bits (map (\<lambda>x. wrap sg bits \<bar>x\<bar>) xs)
      | FloatArray k xs \<Rightarrow> FloatArray k (map abs xs))"

text \<open>
  \<open>a / s\<close>: true division, in float64 for an integer array and in the float type of the
  array otherwise.
\<close>

definition np_true_divide :: "ndarray \<Rightarrow> scalar \<Rightarrow> ndarray" where
  "np_true_divide a s =
     (case a of
        IntArray sg bits xs \<Rightarrow>
          FloatArray Float64
            (map (\<lambda>x. overflow Float64 (float_div (Fin (of_int x)) (scalar_float s))) xs)
      | FloatArray k xs \<Rightarrow>
          FloatArray k (map (\<lambda>x. overflow k (float_div x (scalar_float s))) xs))"

subsection \<open>The normalisation\<close>

text \<open>
  Lines 50-51 (and lines 62-63, 167-168 of \<open>runtime.py\<close>): \<open>ctca - ctca.min()\<close>, then the
  divisor \<open>np.abs(ctca).max()\<close>, then the division.
\<close>

definition shifted :: "slice \<Rightarrow> error + slice" where
  "shifted ctca = (case amin ctca of Inl e \<Rightarrow> Inl e | Inr lo \<Rightarrow> Inr (np_sub ctca lo))"

definition divisor :: "slice \<Rightarrow> error + scalar" where
  "divisor ctca = (case shifted ctca of Inl e \<Rightarrow> Inl e | Inr s \<Rightarrow> amax (np_abs s))"

definition normalize_slice :: "slice \<Rightarrow> error + slice" where
  "normalize_slice ctca =
     (case shifted ctca of
        Inl e \<Rightarrow> Inl e
      | Inr s \<Rightarrow>
          (case amax (np_abs s) of
             Inl e \<Rightarrow> Inl e
           | Inr m \<Rightarrow> Inr (np_true_divide s m)))"

subsection \<open>\<open>__getitem__\<close> as a whole\<close>

text \<open>
  The whole of \<open>__getitem__\<close> up to the resize, which only resamples the two arrays and
  is left out. The exceptions come in the order of the source: the lookup, the two
  globs, reading the CTCA file, taking the slice, reading the annotation, normalising.
\<close>

record item =
  item_image :: slice
  item_mask :: volume

definition getitem :: "asoca_dataset \<Rightarrow> int \<Rightarrow> error + item" where
  "getitem ds index =
     (case resolve ds index of
        Inl e \<Rightarrow> Inl e
      | Inr (patient_idx, slice_idx) \<Rightarrow>
     (case item_paths ds patient_idx of
        Inl e \<Rightarrow> Inl e
      | Inr (c, ctca_path, anno_path) \<Rightarrow>
     (case nrrd_read (ctca_dir ds c) ctca_path of
        Inl e \<Rightarrow> Inl e
      | Inr vol \<Rightarrow>
     (case last_axis vol slice_idx of
        Inl e \<Rightarrow> Inl e
      | Inr ctca \<Rightarrow>
     (case nrrd_read (anno_dir ds c) anno_path of
        Inl e \<Rightarrow> Inl e
      | Inr anno \<Rightarrow>
          if norm_opt ds
          then (case normalize_slice ctca of
                  Inl e \<Rightarrow> Inl e
                | Inr img \<Rightarrow> Inr \<lparr>item_image = img, item_mask = anno\<rparr>)
          else Inr \<lparr>item_image = ctca, item_mask = anno\<rparr>)))))"

text \<open>
  A small directory used for concrete runs: one normal patient with two slices, and two
  diseased patients with one and four slices, all of two int16 pixels.
\<close>

definition small_volume :: "nat \<Rightarrow> volume" where
  "small_volume n = map (\<lambda>k. IntArray True 16 [0, 1 + int k]) [0..<n]"

definition small_dir :: asoca_dir where
  "small_dir =
     \<lparr>n_ctca = [(''Normal_1.nrrd'', small_volume 2)],
      n_anno = [(''Normal_1.nrrd'', small_volume 2)],
      d_ctca = [(''Diseased_1.nrrd'', small_volume 1), (''Diseased_2.nrrd'', small_volume 4)],
      d_anno = [(''Diseased_1.nrrd'', small_volume 1), (''Diseased_2.nrrd'', small_volume 4)]\<rparr>"

definition small_dataset :: asoca_dataset where
  "small_dataset =
     \<lparr>norm_opt = True, data_dir = small_dir, num_slices = [2, 1, 4], num_normal = 1,
      num_diseased = 2, slice_cumsums = [2, 3, 7]\<rparr>"

section \<open>The training driver (\<open>scripts/train_unet2d.py\<close>)\<close>

text \<open>
  The network and the three losses of \<open>mis.loss\<close> are parameters: \<open>forward w images\<close> is
  the second output of \<open>model(images)\<close> under the weights \<open>w\<close>, one entry per sample of the
  batch; \<open>optimizer_step w loss_fn images masks\<close> is the state of the model after
  \<open>zero_grad\<close>, \<open>backward\<close> and \<open>step\<close>. A batch is the pair of its images and masks.
  A loss is a float, so it may be an infinity or not-a-number.
\<close>

record ('w, 'i, 'm, 'p) learner =
  forward :: "'w \<Rightarrow> 'i \<Rightarrow> 'p list"
  dice_loss :: "'m \<Rightarrow> 'p list \<Rightarrow> pyfloat"
  gdlv_loss :: "'m \<Rightarrow> 'p list \<Rightarrow> pyfloat"
  focal_loss :: "'m \<Rightarrow> 'p list \<Rightarrow> pyfloat"
  optimizer_step :: "'w \<Rightarrow> ('m \<Rightarrow> 'p list \<Rightarrow> pyfloat) \<Rightarrow> 'i \<Rightarrow> 'm \<Rightarrow> 'w"

text \<open>Line 41.\<close>

definition loss_fn :: "('w, 'i, 'm, 'p) learner \<Rightarrow> string \<Rightarrow> 'm \<Rightarrow> 'p list \<Rightarrow> pyfloat" where
  "loss_fn L args_loss =
     (if args_loss = ''dice'' then dice_loss L
      else if args_loss = ''gdlv'' then gdlv_loss L else focal_loss L)"

text \<open>Lines 55-64: one batch of the training loop.\<close>

record 'w train_acc =
  weights :: 'w
  train_loss :: pyfloat
  train_dice :: pyfloat

definition train_batch ::
  "('w, 'i, 'm, 'p) learner \<Rightarrow> string \<Rightarrow> 'w train_acc \<Rightarrow> 'i \<times> 'm \<Rightarrow> 'w train_acc" where
  "train_batch L args_loss acc batch =
     (let images = fst batch; masks = snd batch;
          probs = forward L (weights acc) images;
          loss = loss_fn L args_loss masks probs
      in \<lparr>weights = optimizer_step L (weights acc) (loss_fn L args_loss) images masks,
          train_loss = train_loss acc + loss,
          train_dice = train_dice acc + (1 - dice_loss L masks probs)\<rparr>)"

text \<open>
  Lines 76-87: one batch of the validation loop; \<open>total_preds\<close> grows by one entry per
  sample, and only its length is used later.
\<close>

record val_acc =
  val_loss :: pyfloat
  val_dice :: pyfloat
  total_preds :: nat

definition val_batch ::
  "('w, 'i, 'm, 'p) learner \<Rightarrow> string \<Rightarrow> 'w \<Rightarrow> val_acc \<Rightarrow> 'i \<times> 'm \<Rightarrow> val_acc" where
  "val_batch L args_loss w acc batch =
     (let images = fst batch; masks = snd batch;
          probs = forward L w images;
          loss = loss_fn L args_loss masks probs
      in \<lparr>val_loss = val_loss acc + loss,
          val_dice = val_dice acc + (1 - dice_loss L masks probs),
          total_preds = total_preds acc + length probs\<rparr>)"

record metrics =
  m_val_loss :: pyfloat
  m_train_loss :: pyfloat
  m_val_dice :: pyfloat
  m_train_dice :: pyfloat

text \<open>
  What \<open>train\<close> carries from epoch to epoch and leaves on disk: the weights, \<open>min_loss\<close>,
  the four history lists, and the checkpoints written, each the epoch number of its
  directory \<open>epoch{n}\<close> with the saved state dict and the content of \<open>metrics.json\<close>.
\<close>

record 'w train_state =
  model :: 'w
  min_loss :: pyfloat
  train_losses :: "pyfloat list"
  val_losses :: "pyfloat list"
  train_dices :: "pyfloat list"
  val_dices :: "pyfloat list"
  checkpoints :: "(nat \<times> 'w \<times> metrics) list"

text \<open>
  Lines 47-154, one epoch. A raised exception ends the run but leaves what was already
  written, so the state comes back with it. \<open>np.random.choice(n, 50, replace=False)\<close>
  raises ValueError for \<open>n < 50\<close>; the plots it feeds and the metrics of \<open>args.thresh\<close>
  are not modelled.
\<close>

definition epoch_step ::
  "('w, 'i, 'm, 'p) learner \<Rightarrow> string \<Rightarrow> ('i \<times> 'm) list \<Rightarrow> ('i \<times> 'm) list \<Rightarrow>
   nat \<Rightarrow> 'w train_state \<Rightarrow> error option \<times> 'w train_state" where
  "epoch_step L args_loss train_dl validation_dl epoch st =
     (let ta = foldl (train_batch L args_loss)
                 \<lparr>weights = model st, train_loss = 0, train_dice = 0\<rparr> train_dl;
          va = foldl (val_batch L args_loss (weights ta))
                 \<lparr>val_loss = 0, val_dice = 0, total_preds = 0\<rparr> validation_dl;
          st1 = st\<lparr>model := weights ta\<rparr>
      in case py_float_div (train_loss ta) (length train_dl) of
           Inl e \<Rightarrow> (Some e, st1)
         | Inr t_loss \<Rightarrow>
      (case py_float_div (val_loss va) (length validation_dl) of
           Inl e \<Rightarrow> (Some e, st1)
         | Inr v_loss \<Rightarrow>
      (case py_float_div (train_dice ta) (length train_dl) of
           Inl e \<Rightarrow> (Some e, st1)
         | Inr t_dice \<Rightarrow>
      (case py_float_div (val_dice va) (length validation_dl) of
           Inl e \<Rightarrow> (Some e, st1)
         | Inr v_dice \<Rightarrow>
          (let ms = \<lparr>m_val_loss = v_loss, m_train_loss = t_loss, m_val_dice = v_dice, m_train_dice = t_dice\<rparr>;
               st2 = st1\<lparr>train_losses := train_losses st1 @ [t_loss],
                         val_losses := val_losses st1 @ [v_loss],
                         train_dices := train_dices st1 @ [t_dice],
                         val_dices := val_dices st1 @ [v_dice]\<rparr>
           in if float_lt v_loss (min_loss st2)
              then (let st3 = st2\<lparr>min_loss := v_loss,
                                   checkpoints := checkpoints st2 @ [(epoch + 1, model st2, ms)]\<rparr>
                    in if total_preds va < 50
                       then (Some (ValueError ''Cannot take a larger sample than population''), st3)
                       else (None, st3))
              else (None, st2))))))"

text \<open>Line 45: \<open>for epoch in range(args.num_epochs)\<close>, here over the epochs still to run.\<close>

fun epochs ::
  "('w, 'i, 'm, 'p) learner \<Rightarrow> string \<Rightarrow> (nat \<Rightarrow> ('i \<times> 'm) list) \<Rightarrow> ('i \<times> 'm) list \<Rightarrow>
   nat list \<Rightarrow> 'w train_state \<Rightarrow> error option \<times> 'w train_state" where
  "epochs L args_loss train_dl validation_dl [] st = (None, st)"
| "epochs L args_loss train_dl validation_dl (epoch # rest) st =
     (case epoch_step L args_loss (train_dl epoch) validation_dl epoch st of
        (Some e, st') \<Rightarrow> (Some e, st')
      | (None, st') \<Rightarrow> epochs L args_loss train_dl validation_dl rest st')"

text \<open>
  \<open>train\<close> up to the end of the epoch loop. With \<open>shuffle=True\<close> the training batches
  differ from epoch to epoch, so \<open>train_dl\<close> gives them per epoch.
\<close>

definition train ::
  "('w, 'i, 'm, 'p) learner \<Rightarrow> string \<Rightarrow> nat \<Rightarrow> (nat \<Rightarrow> ('i \<times> 'm) list) \<Rightarrow> ('i \<times> 'm) list \<Rightarrow>
   'w \<Rightarrow> error option \<times> 'w train_state" where
  "train L args_loss num_epochs train_dl validation_dl w =
     epochs L args_loss train_dl validation_dl [0..<num_epochs]
       \<lparr>model = w, min_loss = PosInf, train_losses = [], val_losses = [],
        train_dices = [], val_dices = [], checkpoints = []\<rparr>"

section \<open>The runtime profiler (\<open>scripts/runtime.py\<close>)\<close>

text \<open>
  The readings of \<open>time.time()\<close> are inputs: one record per slice of the volume, in loop
  order, and one record per patient holding three readings before the slice loop, the
  slice records and one reading after it. The volume has as many slices as there are
  slice records.
\<close>

record slice_clock =
  preprocessing_t0 :: rat
  preprocessing_t1 :: rat
  inference_t0 :: rat
  inference_t1 :: rat
  postprocessing_t0 :: rat
  postprocessing_t1 :: rat

record patient_clock =
  total_time_t0 :: rat
  loading_time_t0 :: rat
  loading_time_t1 :: rat
  slice_clocks :: "slice_clock list"
  total_time_t1 :: rat

text \<open>Lines 53-55 and 77-79: the three per-slice lists and what one slice appends.\<close>

record slice_times =
  data_preprocessing_times_slices :: "rat list"
  inference_times_slices :: "rat list"
  data_postprocessing_times_slices :: "rat list"

definition slice_iter :: "slice_times \<Rightarrow> slice_clock \<Rightarrow> slice_times" where
  "slice_iter acc c =
     \<lparr>data_preprocessing_times_slices =
        data_preprocessing_times_slices acc @ [preprocessing_t1 c - preprocessing_t0 c],
      inference_times_slices =
        inference_times_slices acc @ [inference_t1 c - inference_t0 c],
      data_postprocessing_times_slices =
        data_postprocessing_times_slices acc @ [postprocessing_t1 c - postprocessing_t0 c]\<rparr>"

text \<open>Lines 37-41 and 83-87: the five per-patient lists and what one patient appends.\<close>

record patient_times =
  loading_times :: "rat list"
  data_preprocessing_times :: "rat list"
  inference_times :: "rat list"
  data_postprocessing_times :: "rat list"
  total_times :: "rat list"

definition patient_iter :: "patient_times \<Rightarrow> patient_clock \<Rightarrow> patient_times" where
  "patient_iter acc p =
     (let sl = foldl slice_iter
                 \<lparr>data_preprocessing_times_slices = [], inference_times_slices = [],
                  data_postprocessing_times_slices = []\<rparr> (slice_clocks p)
      in \<lparr>loading_times = loading_times acc @ [loading_time_t1 p - loading_time_t0 p],
          data_preprocessing_times =
            data_preprocessing_times acc @ [py_sum (data_preprocessing_times_slices sl)],
          inference_times = inference_times acc @ [py_sum (inference_times_slices sl)],
          data_postprocessing_times =
            data_postprocessing_times acc @ [py_sum (data_postprocessing_times_slices sl)],
          total_times = total_times acc @ [total_time_t1 p - total_time_t0 p]\<rparr>)"

text \<open>Python's \<open>x / n\<close> for a time and \<open>len(...)\<close>.\<close>

definition py_div :: "rat \<Rightarrow> nat \<Rightarrow> error + rat" where
  "py_div x n = (if n = 0 then Inl ZeroDivisionError else Inr (x / of_nat n))"

text \<open>
  Lines 89-113: the averages that are printed and written to \<open>times.txt\<close>. The four
  percentages printed beside them are not part of the record; their division by
  \<open>total_time\<close> is kept because it raises when \<open>total_time\<close> is zero.
\<close>

record report =
  loading_time :: rat
  data_preprocessing_time :: rat
  inference_time :: rat
  data_postprocessing_time :: rat
  total_time :: rat

definition averages :: "patient_times \<Rightarrow> error + report" where
  "averages ts =
     (case py_div (py_sum (loading_times ts)) (length (loading_times ts)) of
        Inl e \<Rightarrow> Inl e
      | Inr lt \<Rightarrow>
     (case py_div (py_sum (data_preprocessing_times ts)) (length (data_preprocessing_times ts)) of
        Inl e \<Rightarrow> Inl e
      | Inr pt \<Rightarrow>
     (case py_div (py_sum (inference_times ts)) (length (inference_times ts)) of
        Inl e \<Rightarrow> Inl e
      | Inr it \<Rightarrow>
     (case py_div (py_sum (data_postprocessing_times ts)) (length (data_postprocessing_times ts)) of
        Inl e \<Rightarrow> Inl e
      | Inr ot \<Rightarrow>
     (case py_div (py_sum (total_times ts)) (length (total_times ts)) of
        Inl e \<Rightarrow> Inl e
      | Inr tt \<Rightarrow>
          if tt = 0 then Inl ZeroDivisionError
          else Inr \<lparr>loading_time = lt, data_preprocessing_time = pt, inference_time = it,
                    data_postprocessing_time = ot, total_time = tt\<rparr>)))))"

definition no_times :: patient_times where
  "no_times =
     \<lparr>loading_times = [], data_preprocessing_times = [], inference_times = [],
      data_postprocessing_times = [], total_times = []\<rparr>"

text \<open>
  The two profilers differ in the network they call and in nothing that touches the
  clock; \<open>ps\<close> holds the readings for the patients \<open>range(10, 10 + number_of_patients)\<close>.
\<close>

definition perform_runtime_analysis_unet :: "patient_clock list \<Rightarrow> error + report" where
  "perform_runtime_analysis_unet ps = averages (foldl patient_iter no_times ps)"

definition perform_runtime_analysis_segformer :: "patient_clock list \<Rightarrow> error + report" where
  "perform_runtime_analysis_segformer ps = averages (foldl patient_iter no_times ps)"

text \<open>
  Lines 237-243, one model name. What the two profilers do for a name (they load a
  model and files, and may raise) is a parameter; an exception object that is built
  and dropped is an event like a finished call.
\<close>

datatype 'r event = Unet string 'r | Segformer string 'r | Dropped error

definition runtime_dispatch ::
  "(string \<Rightarrow> error + 'r) \<Rightarrow> (string \<Rightarrow> error + 'r) \<Rightarrow> string \<Rightarrow> error + 'r event list" where
  "runtime_dispatch unet segformer name =
     (case (if sublist ''unet2d'' name
            then (case unet name of Inl e \<Rightarrow> Inl e | Inr r \<Rightarrow> Inr [Unet name r])
            else Inr []) of
        Inl e \<Rightarrow> Inl e
      | Inr evs \<Rightarrow>
          if sublist ''segformer'' name
          then (case segformer name of
                  Inl e \<Rightarrow> Inl e
                | Inr r \<Rightarrow> Inr (evs @ [Segformer name r]))
          else Inr (evs @ [Dropped (ValueError ''Model not recognized.'')]))"

fun runtime_main ::
  "(string \<Rightarrow> error + 'r) \<Rightarrow> (string \<Rightarrow> error + 'r) \<Rightarrow> string list \<Rightarrow> error + 'r event list" where
  "runtime_main unet segformer [] = Inr []"
| "runtime_main unet segformer (name # names) =
     (case runtime_dispatch unet segformer name of
        Inl e \<Rightarrow> Inl e
      | Inr evs \<Rightarrow>
          (case runtime_main unet segformer names of
             Inl e \<Rightarrow> Inl e
           | Inr rest \<Rightarrow> Inr (evs @ rest)))"

section \<open>The parameter counter (\<open>scripts/model_parameters.py\<close>)\<close>

text \<open>A loaded model is the list \<open>model.parameters()\<close> yields.\<close>

record parameter =
  numel :: nat
  requires_grad :: bool

text \<open>Line 53.\<close>

definition num_model_parameters :: "parameter list \<Rightarrow> nat" where
  "num_model_parameters ps = py_sum (map numel (filter requires_grad ps))"

text \<open>
  Lines 45-51, one model name: the variable \<open>model\<close> is unbound (\<open>None\<close>) until a
  loader has returned, and keeps its value when no branch assigns it.
\<close>

definition parameters_dispatch ::
  "(string \<Rightarrow> error + parameter list) \<Rightarrow> (string \<Rightarrow> error + parameter list) \<Rightarrow>
   parameter list option \<Rightarrow> string \<Rightarrow> error + (parameter list option \<times> error list)" where
  "parameters_dispatch get_model_unet2d get_model_segformer model_var model_name =
     (case (if sublist ''unet2d'' model_name
            then (case get_model_unet2d model_name of Inl e \<Rightarrow> Inl e | Inr m \<Rightarrow> Inr (Some m))
            else Inr model_var) of
        Inl e \<Rightarrow> Inl e
      | Inr var \<Rightarrow>
          if sublist ''segformer'' model_name
          then (case get_model_segformer model_name of
                  Inl e \<Rightarrow> Inl e
                | Inr m \<Rightarrow> Inr (Some m, []))
          else Inr (var, [ValueError ''Model name not recognized'']))"

text \<open>Lines 45-54: the loop, returning the printed pairs of name and count.\<close>

fun parameters_main ::
  "(string \<Rightarrow> error + parameter list) \<Rightarrow> (string \<Rightarrow> error + parameter list) \<Rightarrow>
   parameter list option \<Rightarrow> string list \<Rightarrow> error + (string \<times> nat) list" where
  "parameters_main get_model_unet2d get_model_segformer model_var [] = Inr []"
| "parameters_main get_model_unet2d get_model_segformer model_var (model_name # names) =
     (case parameters_dispatch get_model_unet2d get_model_segformer model_var model_name of
        Inl e \<Rightarrow> Inl e
      | Inr (var, dropped) \<Rightarrow>
          (case var of
             None \<Rightarrow> Inl NameError
           | Some m \<Rightarrow>
               (case parameters_main get_model_unet2d get_model_segformer var names of
                  Inl e \<Rightarrow> Inl e
                | Inr printed \<Rightarrow> Inr ((model_name, num_model_parameters m) # printed))))"

section \<open>Notions of the specification\<close>

text \<open>
  The extent of the last axis of the CTCA volume stored for patient \<open>i + 1\<close> of a
  group, if the file is there.
\<close>

definition disk_extent :: "directory \<Rightarrow> string \<Rightarrow> nat \<Rightarrow> nat option" where
  "disk_extent dir grp i =
     (case nrrd_read dir (patient_file grp i) of Inl e \<Rightarrow> None | Inr data \<Rightarrow> Some (length data))"

text \<open>The running prefix sums of a list.\<close>

definition prefix_sums :: "nat list \<Rightarrow> nat list" where
  "prefix_sums xs = map (\<lambda>k. sum_list (take (Suc k) xs)) [0..<length xs]"

text \<open>The arithmetic mean of a non-empty list.\<close>

definition arithmetic_mean :: "rat list \<Rightarrow> rat" where
  "arithmetic_mean xs = sum_list xs / of_nat (length xs)"

text \<open>
  The per-stage times as the specification words them: for each stage the mean over
  the patients of the patient's stage total, where the loading total (and the total
  time) is one measurement per patient and the three other totals are the sums of the
  per-slice measurements.
\<close>

definition stage_means :: "patient_clock list \<Rightarrow> report" where
  "stage_means ps =
     \<lparr>loading_time =
        arithmetic_mean (map (\<lambda>p. loading_time_t1 p - loading_time_t0 p) ps),
      data_preprocessing_time =
        arithmetic_mean
          (map (\<lambda>p. \<Sum>c\<leftarrow>slice_clocks p. preprocessing_t1 c - preprocessing_t0 c) ps),
      inference_time =
        arithmetic_mean (map (\<lambda>p. \<Sum>c\<leftarrow>slice_clocks p. inference_t1 c - inference_t0 c) ps),
      data_postprocessing_time =
        arithmetic_mean
          (map (\<lambda>p. \<Sum>c\<leftarrow>slice_clocks p. postprocessing_t1 c - postprocessing_t0 c) ps),
      total_time = arithmetic_mean (map (\<lambda>p. total_time_t1 p - total_time_t0 p) ps)\<rparr>"

text \<open>Readings for two patients with two and one slices.\<close>

definition clock_a :: slice_clock where
  "clock_a =
     \<lparr>preprocessing_t0 = 2, preprocessing_t1 = 3, inference_t0 = 3, inference_t1 = 7,
      postprocessing_t0 = 7, postprocessing_t1 = 8\<rparr>"

definition clock_b :: slice_clock where
  "clock_b =
     \<lparr>preprocessing_t0 = 8, preprocessing_t1 = 11, inference_t0 = 11, inference_t1 = 13,
      postprocessing_t0 = 13, postprocessing_t1 = 14\<rparr>"

definition two_patients :: "patient_clock list" where
  "two_patients =
     [\<lparr>total_time_t0 = 0, loading_time_t0 = 0, loading_time_t1 = 2,
       slice_clocks = [clock_a, clock_b], total_time_t1 = 14\<rparr>,
      \<lparr>total_time_t0 = 0, loading_time_t0 = 0, loading_time_t1 = 2,
       slice_clocks = [clock_a], total_time_t1 = 8\<rparr>]"

text \<open>
  The pairs of a patient position and a slice index of that patient's volume.
\<close>

definition slots :: "asoca_dataset \<Rightarrow> (nat \<times> int) set" where
  "slots ds = {(p, s). p < length (num_slices ds) \<and> 0 \<le> s \<and> s < int (num_slices ds ! p)}"

text \<open>
  Concrete runs: a profiler that fails for want of a file, a name that matches
  nothing, and a U-Net name; the loaders of the parameter counter alike.
\<close>

definition missing_file :: "string \<Rightarrow> error + nat" where
  "missing_file name = Inl FileNotFoundError"

definition three_patients :: "string \<Rightarrow> error + nat" where
  "three_patients name = Inr 3"

definition no_model :: "string \<Rightarrow> error + parameter list" where
  "no_model name = Inl FileNotFoundError"

definition tiny_model :: "string \<Rightarrow> error + parameter list" where
  "tiny_model name =
     Inr [\<lparr>numel = 6, requires_grad = True\<rparr>, \<lparr>numel = 4, requires_grad = False\<rparr>]"

text \<open>
  The epochs, counted from 1 like the checkpoint directories, whose validation loss
  compares strictly lower than the validation loss of every earlier epoch.
\<close>

definition strict_minima :: "pyfloat list \<Rightarrow> nat list" where
  "strict_minima vs =
     map Suc (filter (\<lambda>k. \<forall>j<k. float_lt (vs ! k) (vs ! j)) [0..<length vs])"

text \<open>
  The epochs whose validation loss is a number below infinity and strictly lower than
  every earlier validation loss that is a number.
\<close>

definition new_minima :: "pyfloat list \<Rightarrow> nat list" where
  "new_minima vs =
     map Suc
       (filter (\<lambda>k. float_lt (vs ! k) PosInf \<and>
                     (\<forall>j<k. vs ! j \<noteq> NaN \<longrightarrow> float_lt (vs ! k) (vs ! j)))
          [0..<length vs])"

text \<open>The running minimum of the losses so far, from infinity, passing over not-a-number.\<close>

definition lowest_so_far :: "pyfloat list \<Rightarrow> pyfloat" where
  "lowest_so_far vs = foldl (\<lambda>m v. if float_lt v m then v else m) PosInf vs"

text \<open>
  What holds between the checkpoints written, \<open>min_loss\<close> and the history of validation
  losses after every epoch.
\<close>

definition train_invar :: "'w train_state \<Rightarrow> bool" where
  "train_invar st =
     (map fst (checkpoints st) = new_minima (val_losses st) \<and>
      min_loss st = lowest_so_far (val_losses st) \<and>
      list_all (\<lambda>c. m_val_loss (snd (snd c)) = val_losses st ! (fst c - 1)) (checkpoints st))"

text \<open>
  Learners for concrete runs: the weights count the optimizer steps and a batch has 50
  samples. The loss of the first is the distance of the weights from the mask value;
  the loss of the second is the inverse of the weights, and not-a-number when the
  weights equal the mask value.
\<close>

definition toy_learner :: "(nat, pyfloat, pyfloat, pyfloat) learner" where
  "toy_learner =
     \<lparr>forward = (\<lambda>w x. replicate 50 (Fin (of_nat w))),
      dice_loss = (\<lambda>m ps. \<bar>hd ps - m\<bar>),
      gdlv_loss = (\<lambda>m ps. \<bar>hd ps - m\<bar> + Fin 1),
      focal_loss = (\<lambda>m ps. \<bar>hd ps - m\<bar> + Fin 2),
      optimizer_step = (\<lambda>w f x m. Suc w)\<rparr>"

definition toy_run :: "error option \<times> nat train_state" where
  "toy_run = train toy_learner ''dice'' 3 (\<lambda>epoch. [(0, Fin 2)]) [(0, Fin 2)] 0"

definition diverging_learner :: "(nat, pyfloat, pyfloat, pyfloat) learner" where
  "diverging_learner =
     \<lparr>forward = (\<lambda>w x. replicate 50 (Fin (of_nat w))),
      dice_loss = (\<lambda>m ps. if hd ps = m then NaN else float_div 1 (hd ps)),
      gdlv_loss = (\<lambda>m ps. NaN),
      focal_loss = (\<lambda>m ps. NaN),
      optimizer_step = (\<lambda>w f x m. Suc w)\<rparr>"

definition nan_first_run :: "error option \<times> nat train_state" where
  "nan_first_run = train diverging_learner ''dice'' 1 (\<lambda>epoch. [(0, Fin 1)]) [(0, Fin 1)] 0"

definition nan_second_run :: "error option \<times> nat train_state" where
  "nan_second_run = train diverging_learner ''dice'' 3 (\<lambda>epoch. [(0, Fin 2)]) [(0, Fin 2)] 0"

text \<open>
  An integer pixel list fits its element type when every pixel is in the range of the
  type and, for a signed type, the spread between the least and the greatest pixel is
  below \<open>2 ^ (bits - 1)\<close>, so that subtracting the minimum does not wrap.
\<close>

definition in_range :: "bool \<Rightarrow> nat \<Rightarrow> int \<Rightarrow> bool" where
  "in_range sg bits x =
     (if sg then - (2 ^ (bits - 1)) \<le> x \<and> x < 2 ^ (bits - 1) else 0 \<le> x \<and> x < 2 ^ bits)"

definition spread_fits :: "bool \<Rightarrow> nat \<Rightarrow> int list \<Rightarrow> bool" where
  "spread_fits sg bits xs =
     (0 < bits \<and> list_all (in_range sg bits) xs \<and>
      (if sg then Max (set xs) - Min (set xs) < 2 ^ (bits - 1) else True))"

text \<open>
  A list of finite float pixels fits its element type when the spread between the
  least and the greatest pixel is at most the largest finite value of the type, so
  that subtracting the minimum does not overflow.
\<close>

definition float_spread_fits :: "float_kind \<Rightarrow> rat list \<Rightarrow> bool" where
  "float_spread_fits k qs = (Max (set qs) - Min (set qs) \<le> largest k)"

section \<open>Properties of the dataset indexer\<close>

subsection \<open>Sums and prefix sums\<close>

lemma foldl_add_sum_list: "foldl (+) a xs = a + sum_list (xs :: 'a::monoid_add list)"
  by (induction xs arbitrary: a) (simp_all add: add.assoc)

lemma py_sum_sum_list: "py_sum xs = sum_list xs"
  by (simp add: py_sum_def foldl_add_sum_list)

lemma read_counts_extents:
  "read_counts dir grp is acc = Inr ns \<Longrightarrow>
   map Some ns = map Some acc @ map (disk_extent dir grp) is"
proof (induction "is" arbitrary: acc)
  case Nil
  then show ?case by simp
next
  case (Cons i rest)
  from Cons.prems obtain data where
    rd: "nrrd_read dir (patient_file grp i) = Inr data" and
    rc: "read_counts dir grp rest (acc @ [length data]) = Inr ns"
    by (auto split: sum.splits)
  from Cons.IH [OF rc] rd show ?case
    by (simp add: disk_extent_def)
qed

lemma cumsum_from_prefix:
  "cumsum_from a xs = map (\<lambda>k. a + sum_list (take (Suc k) xs)) [0..<length xs]"
proof (induction xs arbitrary: a)
  case Nil
  then show ?case by simp
next
  case (Cons x xs)
  have "map (\<lambda>k. a + sum_list (take (Suc k) (x # xs))) [0..<length (x # xs)] =
        (a + x) # map (\<lambda>k. (a + x) + sum_list (take (Suc k) xs)) [0..<length xs]"
    by (simp add: map_upt_Suc add.assoc del: upt_Suc)
  with Cons.IH [of "a + x"] show ?case by simp
qed

lemma cumsum_prefix_sums: "cumsum xs = prefix_sums xs"
  by (simp add: cumsum_def prefix_sums_def cumsum_from_prefix)

lemma last_cumsum_from: "last (a # cumsum_from a xs) = a + sum_list xs"
  by (induction xs arbitrary: a) (simp_all add: add.assoc)

lemma init_fields:
  assumes "init nrm fs = Inr ds"
  shows "get_num_slices fs = Inr (num_slices ds, num_normal ds, num_diseased ds)"
    and "slice_cumsums ds = cumsum (num_slices ds)"
    and "data_dir ds = fs" and "norm_opt ds = nrm"
  using assms by (auto simp: init_def split: sum.splits prod.splits)

text \<open>
  Claim C3. For a dataset object that \<open>__init__\<close> has built, \<open>num_normal\<close> and
  \<open>num_diseased\<close> are the numbers of names the two globs match, \<open>num_slices\<close> lists the
  extent of the last axis of \<open>Normal_1.nrrd\<close>, ..., \<open>Normal_{num_normal}.nrrd\<close> and then of
  \<open>Diseased_1.nrrd\<close>, ..., \<open>Diseased_{num_diseased}.nrrd\<close> as stored on disk,
  \<open>slice_cumsums\<close> is the list of running prefix sums of \<open>num_slices\<close>, and \<open>__len__\<close>
  returns the sum of \<open>num_slices\<close>, which is the last prefix sum (0 for no patients).
\<close>

theorem num_slices_from_disk:
  assumes "init nrm fs = Inr ds"
  shows "num_normal ds = length (glob (n_ctca fs) ''Normal'') \<and>
         num_diseased ds = length (glob (d_ctca fs) ''Diseased'') \<and>
         map Some (num_slices ds) =
           map (disk_extent (n_ctca fs) ''Normal'') [0..<num_normal ds] @
           map (disk_extent (d_ctca fs) ''Diseased'') [0..<num_diseased ds] \<and>
         slice_cumsums ds = prefix_sums (num_slices ds) \<and>
         len ds = sum_list (num_slices ds) \<and>
         len ds = last (0 # slice_cumsums ds)"
proof -
  from init_fields(1) [OF assms] obtain ns where
    nn: "num_normal ds = length (glob (n_ctca fs) ''Normal'')" and
    nd: "num_diseased ds = length (glob (d_ctca fs) ''Diseased'')" and
    r1: "read_counts (n_ctca fs) ''Normal'' [0..<num_normal ds] [] = Inr ns" and
    r2: "read_counts (d_ctca fs) ''Diseased'' [0..<num_diseased ds] ns = Inr (num_slices ds)"
    by (auto simp: get_num_slices_def Let_def split: sum.splits)
  have ext: "map Some (num_slices ds) =
           map (disk_extent (n_ctca fs) ''Normal'') [0..<num_normal ds] @
           map (disk_extent (d_ctca fs) ''Diseased'') [0..<num_diseased ds]"
    using read_counts_extents [OF r1] read_counts_extents [OF r2] by simp
  have cs: "slice_cumsums ds = prefix_sums (num_slices ds)"
    using init_fields(2) [OF assms] by (simp add: cumsum_prefix_sums)
  have l1: "len ds = sum_list (num_slices ds)"
    by (simp add: len_def py_sum_sum_list)
  have l2: "len ds = last (0 # slice_cumsums ds)"
    using last_cumsum_from [of 0 "num_slices ds"] init_fields(2) [OF assms] l1
    by (simp add: cumsum_def)
  from nn nd ext cs l1 l2 show ?thesis by blast
qed

theorem num_slices_from_disk_witness:
  "init True small_dir = Inr small_dataset \<and>
   map Some (num_slices small_dataset) =
     map (disk_extent (n_ctca small_dir) ''Normal'') [0..<num_normal small_dataset] @
     map (disk_extent (d_ctca small_dir) ''Diseased'') [0..<num_diseased small_dataset] \<and>
   slice_cumsums small_dataset = prefix_sums (num_slices small_dataset) \<and>
   len small_dataset = sum_list (num_slices small_dataset) \<and>
   len small_dataset = last (0 # slice_cumsums small_dataset)"
proof -
  have h: "init True small_dir = Inr small_dataset" by code_simp
  from num_slices_from_disk [OF h] h show ?thesis by blast
qed

subsection \<open>The lookup of the patient\<close>

lemma filter_upt_first:
  assumes "filter P [0..<n] = p # ps"
  shows "p < n \<and> P p \<and> (\<forall>q<p. \<not> P q)"
proof -
  from assms obtain us vs where
    dec: "[0..<n] = us @ p # vs" and no: "\<forall>u\<in>set us. \<not> P u" and Pp: "P p"
    by (auto simp: filter_eq_Cons_iff)
  define k where "k = length us"
  have "length [0..<n] = length (us @ p # vs)" by (simp only: dec)
  then have ln: "k < n" by (simp add: k_def)
  have "[0..<n] ! k = (us @ p # vs) ! k" by (simp only: dec)
  then have pe: "p = k" using ln by (simp add: k_def)
  have "take k [0..<n] = take k (us @ p # vs)" by (simp only: dec)
  then have "[0..<k] = us" using ln by (simp add: k_def [symmetric] take_upt)
  then have "set us = {0..<k}" by (metis atLeastLessThan_upt)
  with no have "\<forall>q<k. \<not> P q" by auto
  with Pp ln pe show ?thesis by simp
qed

lemma filter_upt_nonempty:
  assumes "q < n" "P q"
  shows "filter P [0..<n] \<noteq> []"
  using assms by (auto simp: filter_empty_conv)

lemma prefix_sums_nth:
  "k < length xs \<Longrightarrow> prefix_sums xs ! k = sum_list (take (Suc k) xs)"
  by (simp add: prefix_sums_def)

lemma length_prefix_sums: "length (prefix_sums xs) = length xs"
  by (simp add: prefix_sums_def)

lemma take_Suc_sum:
  "p < length xs \<Longrightarrow> sum_list (take (Suc p) xs) = sum_list (take p xs) + xs ! p"
  by (simp add: take_Suc_conv_app_nth)

lemma sum_take_mono: "p \<le> q \<Longrightarrow> sum_list (take p xs) \<le> sum_list (take q (xs::nat list))"
proof -
  assume "p \<le> q"
  then have "take q xs = take p xs @ take (q - p) (drop p xs)"
    by (metis le_add_diff_inverse take_add)
  then show ?thesis by simp
qed

lemma first_gt_prefix_sums:
  assumes "0 \<le> index" "index < int (sum_list ns)"
  shows "\<exists>p. first_gt (prefix_sums ns) index = Inr p \<and> p < length ns \<and>
             int (sum_list (take p ns)) \<le> index \<and> index < int (sum_list (take (Suc p) ns))"
proof -
  let ?P = "\<lambda>p. index < int (prefix_sums ns ! p)"
  have ne: "ns \<noteq> []" using assms by auto
  then have "?P (length ns - 1)" using assms
    by (simp add: prefix_sums_nth)
  then have "filter ?P [0..<length ns] \<noteq> []"
    using ne by (intro filter_upt_nonempty [of "length ns - 1"]) simp_all
  then obtain p ps where f: "filter ?P [0..<length ns] = p # ps"
    by (cases "filter ?P [0..<length ns]") auto
  from filter_upt_first [OF f] have
    pl: "p < length ns" and Pp: "?P p" and least: "\<forall>q<p. \<not> ?P q" by auto
  have lo: "int (sum_list (take p ns)) \<le> index"
  proof (cases p)
    case 0
    then show ?thesis using assms by simp
  next
    case (Suc q)
    with least have "\<not> ?P q" by simp
    moreover have "q < length ns" using Suc pl by simp
    ultimately show ?thesis using Suc by (simp add: prefix_sums_nth)
  qed
  have "first_gt (prefix_sums ns) index = Inr p"
    using f by (simp add: first_gt_def argwhere_gt_def length_prefix_sums)
  with pl lo Pp show ?thesis by (auto simp: prefix_sums_nth)
qed

lemma block_unique:
  fixes ns :: "nat list" and i :: int
  assumes "int (sum_list (take p ns)) \<le> i" "i < int (sum_list (take (Suc p) ns))"
      and "int (sum_list (take q ns)) \<le> i" "i < int (sum_list (take (Suc q) ns))"
  shows "p = q"
proof (rule ccontr)
  assume "p \<noteq> q"
  then consider "Suc p \<le> q" | "Suc q \<le> p" by linarith
  then show False
  proof cases
    case 1
    from sum_take_mono [OF 1, of ns] assms show False by linarith
  next
    case 2
    from sum_take_mono [OF 2, of ns] assms show False by linarith
  qed
qed

lemma resolve_valid:
  assumes cs: "slice_cumsums ds = prefix_sums (num_slices ds)"
      and "0 \<le> index" "index < int (sum_list (num_slices ds))"
  shows "\<exists>p. resolve ds index = Inr (p, index mod int (num_slices ds ! p)) \<and>
             p < length (num_slices ds) \<and>
             int (sum_list (take p (num_slices ds))) \<le> index \<and>
             index < int (sum_list (take (Suc p) (num_slices ds))) \<and>
             0 < num_slices ds ! p"
proof -
  from first_gt_prefix_sums [OF assms(2,3)] obtain p where
    f: "first_gt (prefix_sums (num_slices ds)) index = Inr p" and
    pl: "p < length (num_slices ds)" and
    lo: "int (sum_list (take p (num_slices ds))) \<le> index" and
    hi: "index < int (sum_list (take (Suc p) (num_slices ds)))"
    by blast
  from lo hi pl have pos: "0 < num_slices ds ! p"
    by (simp add: take_Suc_sum)
  then have "resolve ds index = Inr (p, index mod int (num_slices ds ! p))"
    using f cs by (simp add: resolve_def py_mod_def)
  with pl lo hi pos show ?thesis by blast
qed

lemma resolve_block:
  assumes cs: "slice_cumsums ds = prefix_sums (num_slices ds)"
      and pl: "p < length (num_slices ds)"
      and lo: "int (sum_list (take p (num_slices ds))) \<le> index"
      and hi: "index < int (sum_list (take (Suc p) (num_slices ds)))"
  shows "resolve ds index = Inr (p, index mod int (num_slices ds ! p))"
proof -
  have a: "0 \<le> index" using lo by linarith
  have "sum_list (take (Suc p) (num_slices ds)) \<le> sum_list (take (length (num_slices ds)) (num_slices ds))"
    using pl by (intro sum_take_mono) simp
  then have b: "index < int (sum_list (num_slices ds))" using hi by simp
  from resolve_valid [OF cs a b] obtain q where
    r: "resolve ds index = Inr (q, index mod int (num_slices ds ! q))" and
    qlo: "int (sum_list (take q (num_slices ds))) \<le> index" and
    qhi: "index < int (sum_list (take (Suc q) (num_slices ds)))"
    by blast
  from block_unique [OF lo hi qlo qhi] r show ?thesis by simp
qed

lemma mod_inj_in_block:
  fixes i j s :: int and n :: nat
  assumes "s \<le> i" "i < s + int n" "s \<le> j" "j < s + int n" "i mod int n = j mod int n"
  shows "i = j"
proof -
  have "(i - s) mod int n = (j - s) mod int n"
    using assms(5) by (metis mod_diff_cong)
  moreover have "(i - s) mod int n = i - s" using assms by simp
  moreover have "(j - s) mod int n = j - s" using assms by simp
  ultimately show ?thesis by simp
qed

lemma resolve_bij:
  assumes cs: "slice_cumsums ds = prefix_sums (num_slices ds)"
  shows "bij_betw (resolve ds) {0..<int (sum_list (num_slices ds))} (Inr ` slots ds)"
  unfolding bij_betw_def
proof
  let ?ns = "num_slices ds"
  let ?S = "\<lambda>p. int (sum_list (take p ?ns))"
  show "inj_on (resolve ds) {0..<int (sum_list ?ns)}"
  proof (rule inj_onI)
    fix i j assume i: "i \<in> {0..<int (sum_list ?ns)}" and j: "j \<in> {0..<int (sum_list ?ns)}"
      and e: "resolve ds i = resolve ds j"
    from resolve_valid [OF cs, of i] i obtain p where
      ri: "resolve ds i = Inr (p, i mod int (?ns ! p))" and pl: "p < length ?ns" and
      ilo: "?S p \<le> i" and ihi: "i < ?S (Suc p)" by auto
    from resolve_valid [OF cs, of j] j obtain q where
      rj: "resolve ds j = Inr (q, j mod int (?ns ! q))" and
      jlo: "?S q \<le> j" and jhi: "j < ?S (Suc q)" by auto
    from e ri rj have pq: "p = q" and m: "i mod int (?ns ! p) = j mod int (?ns ! p)" by auto
    have S: "?S (Suc p) = ?S p + int (?ns ! p)" using pl by (simp add: take_Suc_sum)
    show "i = j"
      using mod_inj_in_block [of "?S p" i "?ns ! p" j] ilo ihi jlo jhi pq m S by simp
  qed
next
  let ?ns = "num_slices ds"
  let ?S = "\<lambda>p. int (sum_list (take p ?ns))"
  show "resolve ds ` {0..<int (sum_list ?ns)} = Inr ` slots ds"
  proof (intro set_eqI iffI)
    fix r :: "error + nat \<times> int" assume "r \<in> resolve ds ` {0..<int (sum_list ?ns)}"
    then obtain i where i: "0 \<le> i" "i < int (sum_list ?ns)" and r: "r = resolve ds i" by auto
    from resolve_valid [OF cs i] obtain p where
      ri: "resolve ds i = Inr (p, i mod int (?ns ! p))" and pl: "p < length ?ns" and
      pos: "0 < ?ns ! p" by blast
    from pos have "0 \<le> i mod int (?ns ! p)" "i mod int (?ns ! p) < int (?ns ! p)" by simp_all
    with pl have "(p, i mod int (?ns ! p)) \<in> slots ds" by (simp add: slots_def)
    with r ri show "r \<in> Inr ` slots ds" by simp
  next
    fix r :: "error + nat \<times> int" assume "r \<in> Inr ` slots ds"
    then obtain p s where r: "r = Inr (p, s)" and pl: "p < length ?ns" and
      s0: "0 \<le> s" and sn: "s < int (?ns ! p)" by (auto simp: slots_def)
    define n where "n = int (?ns ! p)"
    define i where "i = ?S p + (s - ?S p) mod n"
    have npos: "0 < n" using s0 sn by (simp add: n_def)
    have S: "?S (Suc p) = ?S p + n" using pl by (simp add: take_Suc_sum n_def)
    have lo: "?S p \<le> i" using npos by (simp add: i_def)
    have hi: "i < ?S (Suc p)" using npos S by (simp add: i_def)
    have "i mod n = (?S p + (s - ?S p)) mod n" unfolding i_def by (simp add: mod_add_right_eq)
    also have "\<dots> = s" using s0 sn by (simp add: n_def)
    finally have m: "i mod n = s" .
    have ri: "resolve ds i = Inr (p, s)"
      using resolve_block [OF cs pl lo hi] m by (simp add: n_def)
    have "sum_list (take (Suc p) ?ns) \<le> sum_list (take (length ?ns) ?ns)"
      using pl by (intro sum_take_mono) simp
    then have "i < int (sum_list ?ns)" using hi by simp
    moreover have "0 \<le> i" using lo by linarith
    ultimately show "r \<in> resolve ds ` {0..<int (sum_list ?ns)}"
      using r ri by (auto simp: image_iff intro!: bexI [of _ i])
  qed
qed

subsection \<open>The resolved patient and slice\<close>

lemma small_dataset_init: "init True small_dir = Inr small_dataset"
  by code_simp

text \<open>
  Claim C1, as the code has it. For a dataset object built by \<open>__init__\<close> and every
  index with \<open>0 \<le> index < len(dataset)\<close>, \<open>__getitem__\<close> resolves the index to the least
  position \<open>p\<close> with \<open>slice_cumsums[p] > index\<close> and to the slice index
  \<open>index % num_slices[p]\<close>, which lies in \<open>[0, num_slices[p])\<close>. The slice index is the
  remainder, not the offset \<open>index - slice_cumsums[p-1]\<close>; within one patient the
  remainders run through the slices in rotated order, and the resolution is still a
  bijection from the valid indices onto the pairs of a patient and one of its slices:
  every slice is enumerated exactly once.
\<close>

theorem resolve_by_remainder:
  assumes "init nrm fs = Inr ds"
  shows "(\<forall>index. 0 \<le> index \<and> index < int (len ds) \<longrightarrow>
            (\<exists>p. resolve ds index = Inr (p, index mod int (num_slices ds ! p)) \<and>
                 p < length (num_slices ds) \<and>
                 index < int (slice_cumsums ds ! p) \<and>
                 (\<forall>q<p. int (slice_cumsums ds ! q) \<le> index) \<and>
                 0 \<le> index mod int (num_slices ds ! p) \<and>
                 index mod int (num_slices ds ! p) < int (num_slices ds ! p))) \<and>
         bij_betw (resolve ds) {0..<int (len ds)} (Inr ` slots ds)"
proof -
  let ?ns = "num_slices ds"
  have cs: "slice_cumsums ds = prefix_sums ?ns"
    using init_fields(2) [OF assms] by (simp add: cumsum_prefix_sums)
  have ln: "len ds = sum_list ?ns"
    by (simp add: len_def py_sum_sum_list)
  have a: "\<exists>p. resolve ds index = Inr (p, index mod int (?ns ! p)) \<and>
                 p < length ?ns \<and>
                 index < int (slice_cumsums ds ! p) \<and>
                 (\<forall>q<p. int (slice_cumsums ds ! q) \<le> index) \<and>
                 0 \<le> index mod int (?ns ! p) \<and>
                 index mod int (?ns ! p) < int (?ns ! p)"
    if v: "0 \<le> index \<and> index < int (len ds)" for index
  proof -
    from v ln have v1: "0 \<le> index" and v2: "index < int (sum_list ?ns)" by simp_all
    from resolve_valid [OF cs v1 v2] obtain p where
      r: "resolve ds index = Inr (p, index mod int (?ns ! p))" and pl: "p < length ?ns" and
      lo: "int (sum_list (take p ?ns)) \<le> index" and
      hi: "index < int (sum_list (take (Suc p) ?ns))" and pos: "0 < ?ns ! p"
      by blast
    have h1: "index < int (slice_cumsums ds ! p)"
      using hi pl cs by (simp add: prefix_sums_nth)
    have h2: "\<forall>q<p. int (slice_cumsums ds ! q) \<le> index"
    proof (intro allI impI)
      fix q assume q: "q < p"
      then have "sum_list (take (Suc q) ?ns) \<le> sum_list (take p ?ns)"
        by (intro sum_take_mono) simp
      moreover have "slice_cumsums ds ! q = sum_list (take (Suc q) ?ns)"
        using q pl cs by (simp add: prefix_sums_nth)
      ultimately show "int (slice_cumsums ds ! q) \<le> index" using lo by linarith
    qed
    from pos have h3: "0 \<le> index mod int (?ns ! p)"
      and h4: "index mod int (?ns ! p) < int (?ns ! p)" by simp_all
    from r pl h1 h2 h3 h4 show ?thesis by blast
  qed
  have b: "bij_betw (resolve ds) {0..<int (len ds)} (Inr ` slots ds)"
    using resolve_bij [OF cs] ln by simp
  from a b show ?thesis by blast
qed

theorem resolve_by_remainder_witness:
  "init True small_dir = Inr small_dataset \<and> (0::int) \<le> 3 \<and> 3 < int (len small_dataset) \<and>
   resolve small_dataset 3 = Inr (2, 3) \<and>
   bij_betw (resolve small_dataset) {0..<int (len small_dataset)} (Inr ` slots small_dataset)"
proof -
  have l: "(0::int) \<le> 3 \<and> 3 < int (len small_dataset)" by code_simp
  have r: "resolve small_dataset 3 = Inr (2, 3)" by code_simp
  from resolve_by_remainder [OF small_dataset_init] l r small_dataset_init
  show ?thesis by blast
qed

text \<open>
  The claim as stated fails: in the directory with slice counts 2, 1 and 4 the valid
  index 3 belongs to the third patient, whose block starts at 3, so the stated offset
  is \<open>3 - slice_cumsums[1] = 0\<close>; the code resolves it to slice 3.
\<close>

theorem resolve_offset_counterexample:
  "init True small_dir = Inr small_dataset \<and>
   (0::int) \<le> 3 \<and> 3 < int (len small_dataset) \<and>
   resolve small_dataset 3 = Inr (2, 3) \<and>
   resolve small_dataset 3 \<noteq> Inr (2, 3 - int (slice_cumsums small_dataset ! 1))"
proof -
  have l: "(0::int) \<le> 3 \<and> 3 < int (len small_dataset)" by code_simp
  have r: "resolve small_dataset 3 = Inr (2, 3)" by code_simp
  have c: "(3::int) - int (slice_cumsums small_dataset ! 1) = 0" by code_simp
  from small_dataset_init l r c show ?thesis by simp
qed

subsection \<open>The files of the resolved patient\<close>

text \<open>
  Claim C2 at a directory with one normal and two diseased patients. The position 2,
  which the valid index 3 resolves to, is the second diseased patient
  (\<open>2 - num_normal + 1 = 2\<close>), but the glob prefix is built from
  \<open>patient_idx % num_normal + 1 = 1\<close>, so both the CTCA volume and the annotation are
  read from \<open>Diseased_1.nrrd\<close>.
\<close>

theorem diseased_file_by_remainder:
  "init True small_dir = Inr small_dataset \<and>
   resolve small_dataset 3 = Inr (2, 3) \<and>
   num_normal small_dataset = 1 \<and>
   2 - num_normal small_dataset + 1 = 2 \<and>
   patient_pattern small_dataset 2 = (Diseased, 1) \<and>
   item_paths small_dataset 2 = Inr (Diseased, ''Diseased_1.nrrd'', ''Diseased_1.nrrd'')"
proof -
  have r: "resolve small_dataset 3 = Inr (2, 3)" by code_simp
  have n: "num_normal small_dataset = 1" by (simp add: small_dataset_def)
  have p: "patient_pattern small_dataset 2 = (Diseased, 1)" by code_simp
  have i: "item_paths small_dataset 2 = Inr (Diseased, ''Diseased_1.nrrd'', ''Diseased_1.nrrd'')"
    by code_simp
  from small_dataset_init r n p i show ?thesis by simp
qed

text \<open>
  Claim C8 at the same directory, where every patient has a positive slice count. For
  the valid index 3 the lookup finds the third patient and the slice index 3, which is
  below that patient's count 4; but the volume that is read is the one of
  \<open>Diseased_1.nrrd\<close>, with a single slice, and taking slice 3 of it raises IndexError.
\<close>

theorem slice_access_out_of_bounds:
  "init True small_dir = Inr small_dataset \<and>
   0 \<notin> set (num_slices small_dataset) \<and>
   (0::int) \<le> 3 \<and> 3 < int (len small_dataset) \<and>
   resolve small_dataset 3 = Inr (2, 3) \<and>
   (3::int) < int (num_slices small_dataset ! 2) \<and>
   nrrd_read (d_ctca small_dir) ''Diseased_1.nrrd'' = Inr (small_volume 1) \<and>
   last_axis (small_volume 1) 3 = Inl IndexError \<and>
   getitem small_dataset 3 = Inl IndexError"
proof -
  have z: "0 \<notin> set (num_slices small_dataset)" by (simp add: small_dataset_def)
  have l: "(0::int) \<le> 3 \<and> 3 < int (len small_dataset)" by code_simp
  have r: "resolve small_dataset 3 = Inr (2, 3)" by code_simp
  have b: "(3::int) < int (num_slices small_dataset ! 2)" by (simp add: small_dataset_def)
  have f: "nrrd_read (d_ctca small_dir) ''Diseased_1.nrrd'' = Inr (small_volume 1)" by code_simp
  have a: "last_axis (small_volume 1) 3 = Inl IndexError" by code_simp
  have g: "getitem small_dataset 3 = Inl IndexError" by code_simp
  from small_dataset_init z l r b f a g show ?thesis by blast
qed

subsection \<open>What holds of the lookup and of the file patterns\<close>

text \<open>
  When every patient has a positive slice count, the lookup of lines 35-36 is total on
  the valid indices and its slice index is within the slice count of the patient it
  finds.
\<close>

theorem lookup_total_and_bounded:
  assumes "init nrm fs = Inr ds" and "0 \<notin> set (num_slices ds)"
      and "0 \<le> index" and "index < int (len ds)"
  shows "\<exists>p s. resolve ds index = Inr (p, s) \<and> p < length (num_slices ds) \<and>
               index < int (slice_cumsums ds ! p) \<and> 0 \<le> s \<and> s < int (num_slices ds ! p)"
proof -
  have cs: "slice_cumsums ds = prefix_sums (num_slices ds)"
    using init_fields(2) [OF assms(1)] by (simp add: cumsum_prefix_sums)
  have v: "index < int (sum_list (num_slices ds))"
    using assms(4) by (simp add: len_def py_sum_sum_list)
  from resolve_valid [OF cs assms(3) v] obtain p where
    r: "resolve ds index = Inr (p, index mod int (num_slices ds ! p))" and
    pl: "p < length (num_slices ds)" and
    hi: "index < int (sum_list (take (Suc p) (num_slices ds)))" and
    pos: "0 < num_slices ds ! p"
    by blast
  have "index < int (slice_cumsums ds ! p)" using hi pl cs by (simp add: prefix_sums_nth)
  moreover from pos have "0 \<le> index mod int (num_slices ds ! p)"
    "index mod int (num_slices ds ! p) < int (num_slices ds ! p)" by simp_all
  ultimately show ?thesis using r pl by blast
qed

theorem lookup_total_and_bounded_witness:
  "init True small_dir = Inr small_dataset \<and> 0 \<notin> set (num_slices small_dataset) \<and>
   (0::int) \<le> 3 \<and> 3 < int (len small_dataset) \<and>
   (\<exists>p s. resolve small_dataset 3 = Inr (p, s) \<and> p < length (num_slices small_dataset) \<and>
          3 < int (slice_cumsums small_dataset ! p) \<and> 0 \<le> s \<and>
          s < int (num_slices small_dataset ! p))"
proof -
  have z: "0 \<notin> set (num_slices small_dataset)" by (simp add: small_dataset_def)
  have l0: "(0::int) \<le> 3" by simp
  have l1: "3 < int (len small_dataset)" by code_simp
  from lookup_total_and_bounded [OF small_dataset_init z l0 l1] small_dataset_init z l0 l1
  show ?thesis by blast
qed

text \<open>
  The glob prefix names the patient of the position for every normal patient, and for
  a diseased patient as long as the position is below \<open>2 * num_normal\<close>.
\<close>

theorem patient_pattern_agreement:
  "(p < num_normal ds \<longrightarrow> patient_pattern ds p = (Normal, p + 1)) \<and>
   (num_normal ds \<le> p \<and> p < 2 * num_normal ds \<longrightarrow>
      patient_pattern ds p = (Diseased, p - num_normal ds + 1))"
proof (intro conjI impI)
  assume "p < num_normal ds"
  then show "patient_pattern ds p = (Normal, p + 1)" by (simp add: patient_pattern_def)
next
  assume "num_normal ds \<le> p \<and> p < 2 * num_normal ds"
  then have lo: "num_normal ds \<le> p" and hi: "p < 2 * num_normal ds" by simp_all
  have "p mod num_normal ds = p - num_normal ds"
    using lo hi by (simp add: mod_if)
  with lo hi show "patient_pattern ds p = (Diseased, p - num_normal ds + 1)"
    by (auto simp: patient_pattern_def np_mod_def)
qed

theorem patient_pattern_agreement_witness:
  "0 < num_normal small_dataset \<and> patient_pattern small_dataset 0 = (Normal, 1) \<and>
   num_normal small_dataset \<le> 1 \<and> 1 < 2 * num_normal small_dataset \<and>
   patient_pattern small_dataset 1 = (Diseased, 1)"
proof -
  have n: "num_normal small_dataset = 1" by (simp add: small_dataset_def)
  from patient_pattern_agreement [of 0 small_dataset] patient_pattern_agreement [of 1 small_dataset] n
  show ?thesis by simp
qed

section \<open>Properties of the normalisation\<close>

subsection \<open>Arithmetic that does not wrap\<close>

lemma two_power_split: "0 < bits \<Longrightarrow> (2::int) ^ bits = 2 * 2 ^ (bits - 1)"
  by (cases bits) simp_all

lemma wrap_in_range:
  assumes "0 < bits" "in_range sg bits x"
  shows "wrap sg bits x = x"
proof (cases sg)
  case True
  define h :: int where "h = 2 ^ (bits - 1)"
  have p: "(2::int) ^ bits = 2 * h" using assms(1) by (simp add: h_def two_power_split)
  from assms(2) True have "0 \<le> x + h" "x + h < 2 * h" by (simp_all add: in_range_def h_def)
  then have "(x + h) mod (2 * h) = x + h" by simp
  moreover have "wrap sg bits x = (x + h) mod (2 * h) - h"
    using True p by (simp add: wrap_def h_def)
  ultimately show ?thesis by simp
next
  case False
  with assms(2) show ?thesis by (simp add: wrap_def in_range_def)
qed

lemma in_range_zero: "0 < bits \<Longrightarrow> in_range sg bits 0"
  by (simp add: in_range_def)

lemma difference_in_range:
  assumes f: "spread_fits sg bits xs" and x: "x \<in> set xs"
  shows "in_range sg bits (x - Min (set xs))" and "0 \<le> x - Min (set xs)"
    and "x - Min (set xs) \<le> Max (set xs) - Min (set xs)"
proof -
  have lo: "Min (set xs) \<le> x" and hi: "x \<le> Max (set xs)" using x by simp_all
  from lo show "0 \<le> x - Min (set xs)" by simp
  from hi show "x - Min (set xs) \<le> Max (set xs) - Min (set xs)" by simp
  have ne: "set xs \<noteq> {}" using x by auto
  have mn: "Min (set xs) \<in> set xs" using ne by (intro Min_in) simp_all
  show "in_range sg bits (x - Min (set xs))"
  proof (cases sg)
    case True
    with f have "Max (set xs) - Min (set xs) < 2 ^ (bits - 1)" by (simp add: spread_fits_def)
    with lo hi True show ?thesis by (simp add: in_range_def)
  next
    case False
    from f x False have "0 \<le> x" "x < 2 ^ bits"
      by (simp_all add: spread_fits_def list_all_iff in_range_def)
    moreover from f mn False have "0 \<le> Min (set xs)"
      by (simp add: spread_fits_def list_all_iff in_range_def)
    ultimately show ?thesis using lo False by (simp add: in_range_def)
  qed
qed

lemma shifted_int:
  assumes "spread_fits sg bits xs" "xs \<noteq> []"
  shows "shifted (IntArray sg bits xs) = Inr (IntArray sg bits (map (\<lambda>x. x - Min (set xs)) xs))"
proof -
  have b: "0 < bits" using assms(1) by (simp add: spread_fits_def)
  have "map (\<lambda>x. wrap sg bits (x - Min (set xs))) xs = map (\<lambda>x. x - Min (set xs)) xs"
    by (rule map_cong [OF refl]) (simp add: wrap_in_range [OF b difference_in_range(1) [OF assms(1)]])
  then show ?thesis using assms(2) by (simp add: shifted_def amin_def np_sub_def)
qed

lemma abs_shifted_int:
  assumes "spread_fits sg bits xs"
  shows "np_abs (IntArray sg bits (map (\<lambda>x. x - Min (set xs)) xs)) =
         IntArray sg bits (map (\<lambda>x. x - Min (set xs)) xs)"
proof -
  have b: "0 < bits" using assms by (simp add: spread_fits_def)
  have "map (\<lambda>x. wrap sg bits \<bar>x - Min (set xs)\<bar>) xs = map (\<lambda>x. x - Min (set xs)) xs"
  proof (rule map_cong [OF refl])
    fix x assume x: "x \<in> set xs"
    from difference_in_range(2) [OF assms x] have "\<bar>x - Min (set xs)\<bar> = x - Min (set xs)" by simp
    then show "wrap sg bits \<bar>x - Min (set xs)\<bar> = x - Min (set xs)"
      using wrap_in_range [OF b difference_in_range(1) [OF assms x]] by simp
  qed
  then show ?thesis by (simp add: np_abs_def comp_def)
qed

lemma Max_differences:
  fixes xs :: "'a::linordered_idom list"
  assumes "xs \<noteq> []"
  shows "Max (set (map (\<lambda>x. x - Min (set xs)) xs)) = Max (set xs) - Min (set xs)"
proof (rule Max_eqI)
  show "finite (set (map (\<lambda>x. x - Min (set xs)) xs))" by simp
  show "y \<le> Max (set xs) - Min (set xs)" if "y \<in> set (map (\<lambda>x. x - Min (set xs)) xs)" for y
  proof -
    from that obtain x where "x \<in> set xs" "y = x - Min (set xs)" by auto
    then show ?thesis by simp
  qed
  have "Max (set xs) \<in> set xs" using assms by (intro Max_in) simp_all
  then show "Max (set xs) - Min (set xs) \<in> set (map (\<lambda>x. x - Min (set xs)) xs)"
    by (auto simp: image_iff)
qed

lemma divisor_int:
  assumes "spread_fits sg bits xs" "xs \<noteq> []"
  shows "divisor (IntArray sg bits xs) = Inr (IntScalar (Max (set xs) - Min (set xs)))"
  using assms Max_differences [OF assms(2)]
  by (simp add: divisor_def shifted_int abs_shifted_int amax_def del: set_map)

lemma normalize_int:
  assumes "spread_fits sg bits xs" "xs \<noteq> []"
  shows "normalize_slice (IntArray sg bits xs) =
         Inr (FloatArray Float64
                (map (\<lambda>d. overflow Float64 (np_div d (of_int (Max (set xs) - Min (set xs)))))
                   (map (\<lambda>x. of_int (x - Min (set xs))) xs)))"
  using assms Max_differences [OF assms(2)]
  by (simp add: normalize_slice_def shifted_int abs_shifted_int amax_def np_true_divide_def
      scalar_float_def comp_def del: set_map)

subsection \<open>Least and greatest of finite floats\<close>

lemma foldl_least_Fin:
  "foldl (\<lambda>a b. if float_lt b a then b else a) (Fin q) (map Fin qs) = Fin (fold min qs q)"
  by (induction qs arbitrary: q) (simp_all add: min_def)

lemma foldl_greatest_Fin:
  "foldl (\<lambda>a b. if float_lt a b then b else a) (Fin q) (map Fin qs) = Fin (fold max qs q)"
  by (induction qs arbitrary: q) (simp_all add: max_def)

lemma float_least_Fin: "qs \<noteq> [] \<Longrightarrow> float_least (map Fin qs) = Fin (Min (set qs))"
proof (cases qs)
  case Nil
  assume "qs \<noteq> []"
  with Nil show ?thesis by simp
next
  case (Cons q rest)
  have n: "NaN \<notin> set (map Fin qs)" by auto
  have m: "Min (set qs) = fold min rest q" using Cons Min.set_eq_fold [of q rest] by simp
  have "float_least (map Fin qs) = Fin (fold min rest q)"
    using n Cons by (simp add: float_least_def foldl_least_Fin del: set_map)
  with m show ?thesis by simp
qed

lemma float_greatest_Fin: "qs \<noteq> [] \<Longrightarrow> float_greatest (map Fin qs) = Fin (Max (set qs))"
proof (cases qs)
  case Nil
  assume "qs \<noteq> []"
  with Nil show ?thesis by simp
next
  case (Cons q rest)
  have n: "NaN \<notin> set (map Fin qs)" by auto
  have m: "Max (set qs) = fold max rest q" using Cons Max.set_eq_fold [of q rest] by simp
  have "float_greatest (map Fin qs) = Fin (fold max rest q)"
    using n Cons by (simp add: float_greatest_def foldl_greatest_Fin del: set_map)
  with m show ?thesis by simp
qed

lemma Fin_minus: "Fin a - Fin b = Fin (a - b)"
  by (simp add: minus_pyfloat_def)

subsection \<open>Float arithmetic that does not overflow\<close>

lemma largest_lower: "65504 \<le> largest k"
proof (cases k)
  case Float16
  then show ?thesis by (simp add: largest_def)
next
  case Float32
  have "(65504::rat) \<le> (2 ^ 24 - 1) * 1" by simp
  also have "\<dots> \<le> (2 ^ 24 - 1) * 2 ^ 104" by (intro mult_left_mono) simp_all
  finally show ?thesis using Float32 by (simp only: largest_def float_kind.case)
next
  case Float64
  have "(65504::rat) \<le> (2 ^ 53 - 1) * 1" by simp
  also have "\<dots> \<le> (2 ^ 53 - 1) * 2 ^ 971" by (intro mult_left_mono) simp_all
  finally show ?thesis using Float64 by (simp only: largest_def float_kind.case)
qed

lemma overflow_Fin: "0 \<le> r \<Longrightarrow> r \<le> largest k \<Longrightarrow> overflow k (Fin r) = Fin r"
  using largest_lower [of k] by (simp add: overflow_def)

lemma overflow_unit: "0 \<le> r \<Longrightarrow> r \<le> 1 \<Longrightarrow> overflow k (Fin r) = Fin r"
  using largest_lower [of k] by (intro overflow_Fin) simp_all

lemma overflow_NaN: "overflow k NaN = NaN"
  by (simp add: overflow_def)

lemma overflow_np_div:
  assumes "0 < m" "0 \<le> d" "d \<le> m"
  shows "overflow k (np_div d m) = np_div d m"
proof -
  have "0 \<le> d / m" "d / m \<le> 1" using assms by simp_all
  then have "overflow k (Fin (d / m)) = Fin (d / m)" by (rule overflow_unit)
  then show ?thesis using assms(1) by (simp add: np_div_def)
qed

lemma shifted_float:
  assumes "qs \<noteq> []" "float_spread_fits k qs"
  shows "shifted (FloatArray k (map Fin qs)) =
         Inr (FloatArray k (map Fin (map (\<lambda>q. q - Min (set qs)) qs)))"
proof -
  have "map (\<lambda>q. overflow k (Fin q - Fin (Min (set qs)))) qs =
        map (\<lambda>q. Fin (q - Min (set qs))) qs"
  proof (rule map_cong [OF refl])
    fix q assume q: "q \<in> set qs"
    have "Min (set qs) \<le> q" "q \<le> Max (set qs)" using q by simp_all
    with assms(2) have "0 \<le> q - Min (set qs)" "q - Min (set qs) \<le> largest k"
      by (simp_all add: float_spread_fits_def)
    then show "overflow k (Fin q - Fin (Min (set qs))) = Fin (q - Min (set qs))"
      by (simp only: Fin_minus overflow_Fin)
  qed
  then show ?thesis
    using assms(1)
    by (simp add: shifted_def amin_def float_least_Fin np_sub_def scalar_float_def comp_def)
qed

lemma abs_shifted_float:
  "np_abs (FloatArray k (map Fin (map (\<lambda>q. q - Min (set qs)) qs))) =
   FloatArray k (map Fin (map (\<lambda>q. q - Min (set qs)) qs))"
proof -
  have "map (\<lambda>q. Fin \<bar>q - Min (set qs)\<bar>) qs = map (\<lambda>q. Fin (q - Min (set qs))) qs"
    by (rule map_cong [OF refl]) simp
  then show ?thesis by (simp add: np_abs_def comp_def)
qed

lemma divisor_float:
  assumes "qs \<noteq> []" "float_spread_fits k qs"
  shows "divisor (FloatArray k (map Fin qs)) =
         Inr (FloatScalar (Fin (Max (set qs) - Min (set qs))))"
proof -
  have ne: "map (\<lambda>q. q - Min (set qs)) qs \<noteq> []" using assms by simp
  have "float_greatest (map Fin (map (\<lambda>q. q - Min (set qs)) qs)) =
        Fin (Max (set (map (\<lambda>q. q - Min (set qs)) qs)))"
    by (rule float_greatest_Fin [OF ne])
  then have "float_greatest (map Fin (map (\<lambda>q. q - Min (set qs)) qs)) =
        Fin (Max (set qs) - Min (set qs))"
    by (simp only: Max_differences [OF assms(1)])
  then show ?thesis
    using assms by (simp add: divisor_def shifted_float abs_shifted_float amax_def del: map_map)
qed

lemma normalize_float:
  assumes "qs \<noteq> []" "float_spread_fits k qs"
  shows "normalize_slice (FloatArray k (map Fin qs)) =
         Inr (FloatArray k (map (\<lambda>d. overflow k (np_div d (Max (set qs) - Min (set qs))))
                (map (\<lambda>q. q - Min (set qs)) qs)))"
proof -
  have ne: "map (\<lambda>q. q - Min (set qs)) qs \<noteq> []" using assms by simp
  have "float_greatest (map Fin (map (\<lambda>q. q - Min (set qs)) qs)) =
        Fin (Max (set (map (\<lambda>q. q - Min (set qs)) qs)))"
    by (rule float_greatest_Fin [OF ne])
  then have "float_greatest (map Fin (map (\<lambda>q. q - Min (set qs)) qs)) =
        Fin (Max (set qs) - Min (set qs))"
    by (simp only: Max_differences [OF assms(1)])
  then show ?thesis
    using assms
    by (simp add: normalize_slice_def shifted_float abs_shifted_float amax_def
        np_true_divide_def scalar_float_def del: map_map) (simp add: comp_def)
qed

lemma constant_fits: "set fs = {f} \<Longrightarrow> float_spread_fits k fs"
  using largest_lower [of k] by (simp add: float_spread_fits_def)

subsection \<open>The range of the normalised slice\<close>

lemma no_overflow:
  fixes ds :: "rat list"
  assumes "0 < m" "\<forall>d\<in>set ds. 0 \<le> d \<and> d \<le> m"
  shows "map (\<lambda>d. overflow k (np_div d m)) ds = map (\<lambda>d. np_div d m) ds"
  using assms by (intro map_cong [OF refl] overflow_np_div) simp_all

lemma unit_range:
  fixes ds :: "rat list"
  assumes "0 < m" "0 \<in> set ds" "m \<in> set ds" "\<forall>d\<in>set ds. 0 \<le> d \<and> d \<le> m"
  shows "Fin 0 \<in> set (map (\<lambda>d. np_div d m) ds) \<and> Fin 1 \<in> set (map (\<lambda>d. np_div d m) ds) \<and>
         (\<forall>v\<in>set (map (\<lambda>d. np_div d m) ds). \<exists>q. v = Fin q \<and> 0 \<le> q \<and> q \<le> 1)"
proof (intro conjI ballI)
  have "np_div 0 m = Fin 0" using assms(1) by (simp add: np_div_def)
  with assms(2) show "Fin 0 \<in> set (map (\<lambda>d. np_div d m) ds)" by (force simp: image_iff)
  have "np_div m m = Fin 1" using assms(1) by (simp add: np_div_def)
  with assms(3) show "Fin 1 \<in> set (map (\<lambda>d. np_div d m) ds)" by (force simp: image_iff)
next
  fix v assume "v \<in> set (map (\<lambda>d. np_div d m) ds)"
  then obtain d where d: "d \<in> set ds" and v: "v = np_div d m" by auto
  from d assms(4) have "0 \<le> d" "d \<le> m" by simp_all
  then have "0 \<le> d / m" "d / m \<le> 1" using assms(1) by simp_all
  with v assms(1) show "\<exists>q. v = Fin q \<and> 0 \<le> q \<and> q \<le> 1" by (simp add: np_div_def)
qed

lemma spread_positive:
  fixes xs :: "'a::linordered_idom list"
  assumes "x \<in> set xs" "y \<in> set xs" "x \<noteq> y"
  shows "0 < Max (set xs) - Min (set xs)"
proof -
  have "Min (set xs) \<le> x" "x \<le> Max (set xs)" "Min (set xs) \<le> y" "y \<le> Max (set xs)"
    using assms by simp_all
  with assms(3) show ?thesis by linarith
qed

text \<open>
  Claim C10, as the code has it. The normalisation subtracts the minimum of the slice
  and divides by the maximum absolute value of the result, with no guard, in the
  element type of the array. For a slice with two distinct pixel values whose
  arithmetic stays within the element type (an integer array whose pixels are in the
  range of the type and, if it is signed, whose spread is below \<open>2 ^ (bits - 1)\<close>; or an
  array of finite floats whose spread is at most the largest finite value of the type)
  the divisor is not zero, every normalised pixel is a finite number between 0 and 1,
  and both 0 and 1 occur, so the minimum is exactly 0 and the maximum exactly 1. For a
  slice whose pixels are all equal the divisor is 0 and every pixel becomes \<open>0 / 0\<close>,
  not-a-number; nothing is raised.
\<close>

theorem normalisation_range:
  "(spread_fits sg bits xs \<and> (\<exists>x\<in>set xs. \<exists>y\<in>set xs. x \<noteq> y) \<longrightarrow>
      (\<exists>m img. divisor (IntArray sg bits xs) = Inr (IntScalar m) \<and> m \<noteq> 0 \<and>
          normalize_slice (IntArray sg bits xs) = Inr (FloatArray Float64 img) \<and>
          length img = length xs \<and> Fin 0 \<in> set img \<and> Fin 1 \<in> set img \<and>
          (\<forall>v\<in>set img. \<exists>q. v = Fin q \<and> 0 \<le> q \<and> q \<le> 1))) \<and>
   (float_spread_fits k qs \<and> (\<exists>x\<in>set qs. \<exists>y\<in>set qs. x \<noteq> y) \<longrightarrow>
      (\<exists>m img. divisor (FloatArray k (map Fin qs)) = Inr (FloatScalar (Fin m)) \<and> m \<noteq> 0 \<and>
          normalize_slice (FloatArray k (map Fin qs)) = Inr (FloatArray k img) \<and>
          length img = length qs \<and> Fin 0 \<in> set img \<and> Fin 1 \<in> set img \<and>
          (\<forall>v\<in>set img. \<exists>q. v = Fin q \<and> 0 \<le> q \<and> q \<le> 1))) \<and>
   (0 < width \<and> is \<noteq> [] \<and> set is = {i} \<longrightarrow>
      divisor (IntArray sg' width is) = Inr (IntScalar 0) \<and>
      normalize_slice (IntArray sg' width is) = Inr (FloatArray Float64 (map (\<lambda>x. NaN) is))) \<and>
   (fs \<noteq> [] \<and> set fs = {f} \<longrightarrow>
      divisor (FloatArray k' (map Fin fs)) = Inr (FloatScalar (Fin 0)) \<and>
      normalize_slice (FloatArray k' (map Fin fs)) = Inr (FloatArray k' (map (\<lambda>x. NaN) fs)))"
proof (intro conjI impI)
  assume a: "spread_fits sg bits xs \<and> (\<exists>x\<in>set xs. \<exists>y\<in>set xs. x \<noteq> y)"
  then have fit: "spread_fits sg bits xs" by simp
  from a obtain x y where x: "x \<in> set xs" and y: "y \<in> set xs" and xy: "x \<noteq> y" by blast
  have ne: "xs \<noteq> []" using x by auto
  define m where "m = Max (set xs) - Min (set xs)"
  define ds :: "rat list" where "ds = map (\<lambda>x. of_int (x - Min (set xs))) xs"
  define img where "img = map (\<lambda>d. np_div d (of_int m)) ds"
  have mpos: "0 < m" unfolding m_def by (rule spread_positive [OF x y xy])
  have lo: "Min (set xs) \<in> set xs" using ne by (intro Min_in) simp_all
  have hi: "Max (set xs) \<in> set xs" using ne by (intro Max_in) simp_all
  have z: "(0::rat) \<in> set ds" using lo by (force simp: ds_def image_iff)
  have o: "(of_int m :: rat) \<in> set ds" using hi by (force simp: ds_def m_def image_iff)
  have r: "\<forall>d\<in>set ds. 0 \<le> d \<and> d \<le> (of_int m :: rat)"
  proof
    fix d assume "d \<in> set ds"
    then obtain u where u: "u \<in> set xs" and d: "d = of_int (u - Min (set xs))"
      by (auto simp: ds_def)
    from difference_in_range(2,3) [OF fit u] d show "0 \<le> d \<and> d \<le> (of_int m :: rat)"
      by (simp add: m_def)
  qed
  have mr: "(0::rat) < of_int m" using mpos by simp
  have u:
    "Fin 0 \<in> set img \<and> Fin 1 \<in> set img \<and> (\<forall>v\<in>set img. \<exists>q. v = Fin q \<and> 0 \<le> q \<and> q \<le> 1)"
    unfolding img_def by (rule unit_range [OF mr z o r])
  have d: "divisor (IntArray sg bits xs) = Inr (IntScalar m)"
    using divisor_int [OF fit ne] by (simp add: m_def)
  have "normalize_slice (IntArray sg bits xs) =
        Inr (FloatArray Float64 (map (\<lambda>d. overflow Float64 (np_div d (of_int m))) ds))"
    using normalize_int [OF fit ne] by (simp only: ds_def m_def)
  then have n: "normalize_slice (IntArray sg bits xs) = Inr (FloatArray Float64 img)"
    by (simp only: no_overflow [OF mr r] img_def)
  have l: "length img = length xs" by (simp add: img_def ds_def)
  from d mpos n l u
  show "\<exists>m img. divisor (IntArray sg bits xs) = Inr (IntScalar m) \<and> m \<noteq> 0 \<and>
          normalize_slice (IntArray sg bits xs) = Inr (FloatArray Float64 img) \<and>
          length img = length xs \<and> Fin 0 \<in> set img \<and> Fin 1 \<in> set img \<and>
          (\<forall>v\<in>set img. \<exists>q. v = Fin q \<and> 0 \<le> q \<and> q \<le> 1)"
    by (intro exI [of _ m] exI [of _ img]) simp
next
  assume a: "float_spread_fits k qs \<and> (\<exists>x\<in>set qs. \<exists>y\<in>set qs. x \<noteq> y)"
  then have fit: "float_spread_fits k qs" by simp
  from a obtain x y where x: "x \<in> set qs" and y: "y \<in> set qs" and xy: "x \<noteq> y" by blast
  have ne: "qs \<noteq> []" using x by auto
  define m where "m = Max (set qs) - Min (set qs)"
  define ds where "ds = map (\<lambda>q. q - Min (set qs)) qs"
  define img where "img = map (\<lambda>d. np_div d m) ds"
  have mpos: "0 < m" unfolding m_def by (rule spread_positive [OF x y xy])
  have lo: "Min (set qs) \<in> set qs" using ne by (intro Min_in) simp_all
  have hi: "Max (set qs) \<in> set qs" using ne by (intro Max_in) simp_all
  have z: "0 \<in> set ds" using lo by (force simp: ds_def image_iff)
  have o: "m \<in> set ds" using hi by (force simp: ds_def m_def image_iff)
  have r: "\<forall>d\<in>set ds. 0 \<le> d \<and> d \<le> m"
  proof
    fix d assume "d \<in> set ds"
    then obtain u where u: "u \<in> set qs" and d: "d = u - Min (set qs)" by (auto simp: ds_def)
    have "Min (set qs) \<le> u" "u \<le> Max (set qs)" using u by simp_all
    with d show "0 \<le> d \<and> d \<le> m" by (simp add: m_def)
  qed
  have u:
    "Fin 0 \<in> set img \<and> Fin 1 \<in> set img \<and> (\<forall>v\<in>set img. \<exists>q. v = Fin q \<and> 0 \<le> q \<and> q \<le> 1)"
    unfolding img_def by (rule unit_range [OF mpos z o r])
  have d: "divisor (FloatArray k (map Fin qs)) = Inr (FloatScalar (Fin m))"
    using divisor_float [OF ne fit] by (simp add: m_def)
  have "normalize_slice (FloatArray k (map Fin qs)) =
        Inr (FloatArray k (map (\<lambda>d. overflow k (np_div d m)) ds))"
    using normalize_float [OF ne fit] by (simp only: ds_def m_def)
  then have n: "normalize_slice (FloatArray k (map Fin qs)) = Inr (FloatArray k img)"
    by (simp only: no_overflow [OF mpos r] img_def)
  have l: "length img = length qs" by (simp add: img_def ds_def)
  from d mpos n l u
  show "\<exists>m img. divisor (FloatArray k (map Fin qs)) = Inr (FloatScalar (Fin m)) \<and> m \<noteq> 0 \<and>
          normalize_slice (FloatArray k (map Fin qs)) = Inr (FloatArray k img) \<and>
          length img = length qs \<and> Fin 0 \<in> set img \<and> Fin 1 \<in> set img \<and>
          (\<forall>v\<in>set img. \<exists>q. v = Fin q \<and> 0 \<le> q \<and> q \<le> 1)"
    by (intro exI [of _ m] exI [of _ img]) simp
next
  assume a: "0 < width \<and> is \<noteq> [] \<and> set is = {i}"
  then have w: "wrap sg' width 0 = 0" by (simp add: wrap_in_range in_range_zero)
  have e: "map (\<lambda>x. wrap sg' width (x - i)) is = map (\<lambda>x. 0) is"
    using a w by (intro map_cong) simp_all
  have s: "shifted (IntArray sg' width is) = Inr (IntArray sg' width (map (\<lambda>x. 0) is))"
    using a e by (simp add: shifted_def amin_def np_sub_def)
  have b: "np_abs (IntArray sg' width (map (\<lambda>x. 0) is)) = IntArray sg' width (map (\<lambda>x. 0) is)"
    using w by (simp add: np_abs_def comp_def)
  have mx: "amax (IntArray sg' width (map (\<lambda>x. 0) is)) = Inr (IntScalar 0)"
    using a by (simp add: amax_def)
  show "divisor (IntArray sg' width is) = Inr (IntScalar 0)"
    by (simp add: divisor_def s b mx)
  show "normalize_slice (IntArray sg' width is) = Inr (FloatArray Float64 (map (\<lambda>x. NaN) is))"
    by (simp add: normalize_slice_def s b mx np_true_divide_def scalar_float_def
        np_div_def overflow_NaN comp_def)
next
  assume a: "fs \<noteq> [] \<and> set fs = {f}"
  then have ne: "fs \<noteq> []" by simp
  from a have fit: "float_spread_fits k' fs" by (simp add: constant_fits)
  from a show "divisor (FloatArray k' (map Fin fs)) = Inr (FloatScalar (Fin 0))"
    using divisor_float [OF ne fit] by simp
  from a have "\<forall>x\<in>set fs. x = f" by simp
  then have "map (\<lambda>d. overflow k' (np_div d 0)) (map (\<lambda>q. q - f) fs) = map (\<lambda>x. NaN) fs"
    by (simp add: np_div_def overflow_NaN)
  with a show "normalize_slice (FloatArray k' (map Fin fs)) =
      Inr (FloatArray k' (map (\<lambda>x. NaN) fs))"
    using normalize_float [OF ne fit] by simp
qed

theorem normalisation_range_witness:
  "spread_fits True 16 [3, 5, 4] \<and>
   divisor (IntArray True 16 [3, 5, 4]) = Inr (IntScalar 2) \<and>
   normalize_slice (IntArray True 16 [3, 5, 4]) =
     Inr (FloatArray Float64 [Fin 0, Fin 1, Fin (1 / 2)]) \<and>
   float_spread_fits Float32 [3, 5, 4] \<and>
   normalize_slice (FloatArray Float32 (map Fin [3, 5, 4])) =
     Inr (FloatArray Float32 [Fin 0, Fin 1, Fin (1 / 2)]) \<and>
   divisor (IntArray True 16 [3, 3, 3]) = Inr (IntScalar 0) \<and>
   normalize_slice (IntArray True 16 [3, 3, 3]) = Inr (FloatArray Float64 [NaN, NaN, NaN]) \<and>
   divisor (FloatArray Float32 (map Fin [3, 3, 3])) = Inr (FloatScalar (Fin 0)) \<and>
   normalize_slice (FloatArray Float32 (map Fin [3, 3, 3])) =
     Inr (FloatArray Float32 [NaN, NaN, NaN])"
proof -
  have f: "spread_fits True 16 [3, 5, 4]" by (simp add: spread_fits_def in_range_def)
  have g: "float_spread_fits Float32 [3, 5, 4]" by (simp add: float_spread_fits_def largest_def)
  have h1: "\<exists>x\<in>set [3, 5, 4 :: int]. \<exists>y\<in>set [3, 5, 4]. x \<noteq> y"
    by (rule bexI [of _ 3], rule bexI [of _ 5]) simp_all
  have h2: "(0::nat) < 16 \<and> [3, 3, 3 :: int] \<noteq> [] \<and> set [3, 3, 3 :: int] = {3}" by simp
  have h3: "[3, 3, 3 :: rat] \<noteq> [] \<and> set [3, 3, 3 :: rat] = {3}" by simp
  have h4: "\<exists>x\<in>set [3, 5, 4 :: rat]. \<exists>y\<in>set [3, 5, 4]. x \<noteq> y"
    by (rule bexI [of _ 3], rule bexI [of _ 5]) simp_all
  from normalisation_range
    [of True 16 "[3, 5, 4]" Float32 "[3, 5, 4]" 16 "[3, 3, 3]" 3 True "[3, 3, 3]" 3 Float32]
    f g h1 h2 h3 h4
  have c: "(\<exists>m img. divisor (IntArray True 16 [3, 5, 4]) = Inr (IntScalar m) \<and> m \<noteq> 0 \<and>
          normalize_slice (IntArray True 16 [3, 5, 4]) = Inr (FloatArray Float64 img)) \<and>
      (\<exists>m img. divisor (FloatArray Float32 (map Fin [3, 5, 4])) = Inr (FloatScalar (Fin m)) \<and>
          m \<noteq> 0 \<and>
          normalize_slice (FloatArray Float32 (map Fin [3, 5, 4])) = Inr (FloatArray Float32 img)) \<and>
      divisor (IntArray True 16 [3, 3, 3]) = Inr (IntScalar 0) \<and>
      normalize_slice (IntArray True 16 [3, 3, 3]) =
        Inr (FloatArray Float64 (map (\<lambda>x. NaN) [3, 3, 3 :: int])) \<and>
      divisor (FloatArray Float32 (map Fin [3, 3, 3])) = Inr (FloatScalar (Fin 0)) \<and>
      normalize_slice (FloatArray Float32 (map Fin [3, 3, 3])) =
        Inr (FloatArray Float32 (map (\<lambda>x. NaN) [3, 3, 3 :: rat]))"
    by blast
  have d: "divisor (IntArray True 16 [3, 5, 4]) = Inr (IntScalar 2)" by code_simp
  have n1: "normalize_slice (IntArray True 16 [3, 5, 4]) =
            Inr (FloatArray Float64 [Fin 0, Fin 1, Fin (1 / 2)])"
    by code_simp
  have n2: "normalize_slice (FloatArray Float32 (map Fin [3, 5, 4])) =
            Inr (FloatArray Float32 [Fin 0, Fin 1, Fin (1 / 2)])"
    by code_simp
  from f g c d n1 n2 show ?thesis by simp
qed

text \<open>
  The claim as stated fails for a slice whose spread leaves the element type. The int16
  pixels \<open>-32768, 32767, 0\<close> are three distinct values and normalise to
  \<open>0, -1, -32768\<close>; the int16 pixels \<open>-32768, 0, 0\<close> hold two distinct values and their
  divisor is 0; the float16 pixels \<open>-65504, 65504\<close> are finite and distinct, their
  difference overflows, the divisor is infinite and the greater pixel becomes
  not-a-number.
\<close>

theorem normalisation_wraps_counterexample:
  "list_all (in_range True 16) [-32768, 32767, 0] \<and>
   normalize_slice (IntArray True 16 [-32768, 32767, 0]) =
     Inr (FloatArray Float64 [Fin 0, Fin (- 1), Fin (- 32768)]) \<and>
   list_all (in_range True 16) [-32768, 0, 0] \<and>
   divisor (IntArray True 16 [-32768, 0, 0]) = Inr (IntScalar 0) \<and>
   normalize_slice (IntArray True 16 [-32768, 0, 0]) =
     Inr (FloatArray Float64 [NaN, NegInf, NegInf]) \<and>
   divisor (FloatArray Float16 [Fin (- 65504), Fin 65504]) = Inr (FloatScalar PosInf) \<and>
   normalize_slice (FloatArray Float16 [Fin (- 65504), Fin 65504]) =
     Inr (FloatArray Float16 [Fin 0, NaN])"
proof -
  have a: "list_all (in_range True 16) [-32768, 32767, 0]" by (simp add: in_range_def)
  have b: "normalize_slice (IntArray True 16 [-32768, 32767, 0]) =
     Inr (FloatArray Float64 [Fin 0, Fin (- 1), Fin (- 32768)])" by code_simp
  have c: "list_all (in_range True 16) [-32768, 0, 0]" by (simp add: in_range_def)
  have d: "divisor (IntArray True 16 [-32768, 0, 0]) = Inr (IntScalar 0)" by code_simp
  have e: "normalize_slice (IntArray True 16 [-32768, 0, 0]) =
     Inr (FloatArray Float64 [NaN, NegInf, NegInf])"
    by code_simp
  have f: "divisor (FloatArray Float16 [Fin (- 65504), Fin 65504]) = Inr (FloatScalar PosInf)"
    by code_simp
  have g: "normalize_slice (FloatArray Float16 [Fin (- 65504), Fin 65504]) =
     Inr (FloatArray Float16 [Fin 0, NaN])"
    by code_simp
  from a b c d e f g show ?thesis by blast
qed

section \<open>Properties of the training driver\<close>

subsection \<open>The Dice metric\<close>

lemma val_dice_foldl:
  "val_dice (foldl (val_batch L args_loss w) acc bs) =
   val_dice acc + (\<Sum>b\<leftarrow>bs. 1 - dice_loss L (snd b) (forward L w (fst b)))"
  by (induction bs arbitrary: acc) (simp_all add: val_batch_def Let_def add.assoc)

text \<open>
  Claim C7. Whatever \<open>args.loss\<close> is, one batch of the training loop adds
  \<open>1 - dice_loss(masks, probs)\<close> to \<open>train_dice\<close>, with \<open>probs\<close> the output of the model
  on the images of the batch under the weights it has before the optimizer step, and
  one batch of the validation loop adds \<open>1 - dice_loss(masks, probs)\<close> to \<open>val_dice\<close>;
  over the whole validation loop \<open>val_dice\<close> grows by the sum of these terms.
\<close>

theorem dice_metric_is_one_minus_dice_loss:
  "train_dice (train_batch L args_loss acc (images, masks)) =
     train_dice acc + (1 - dice_loss L masks (forward L (weights acc) images)) \<and>
   val_dice (val_batch L args_loss w vacc (images, masks)) =
     val_dice vacc + (1 - dice_loss L masks (forward L w images)) \<and>
   val_dice (foldl (val_batch L args_loss w) vacc bs) =
     val_dice vacc + (\<Sum>b\<leftarrow>bs. 1 - dice_loss L (snd b) (forward L w (fst b)))"
  by (simp add: train_batch_def val_batch_def Let_def val_dice_foldl)

subsection \<open>Checkpoints and the lowest validation loss\<close>

lemma float_lt_numbers: "float_lt a b \<Longrightarrow> a \<noteq> NaN \<and> b \<noteq> NaN \<and> a \<noteq> PosInf \<and> b \<noteq> NegInf"
  by (cases a; cases b) simp_all

lemma float_lt_trans: "float_lt a b \<Longrightarrow> float_lt b c \<Longrightarrow> float_lt a c"
  by (cases a; cases b; cases c) simp_all

lemma float_lt_total: "a \<noteq> NaN \<Longrightarrow> b \<noteq> NaN \<Longrightarrow> float_lt a b \<or> a = b \<or> float_lt b a"
  by (cases a; cases b) auto

lemma float_lt_PosInf: "float_lt a PosInf = (a \<noteq> NaN \<and> a \<noteq> PosInf)"
  by (cases a) simp_all

lemma lowest_so_far_snoc:
  "lowest_so_far (vs @ [v]) =
   (if float_lt v (lowest_so_far vs) then v else lowest_so_far vs)"
  by (simp add: lowest_so_far_def)

lemma lowest_so_far_number: "lowest_so_far vs \<noteq> NaN"
proof (induction vs rule: rev_induct)
  case Nil
  show ?case by (simp add: lowest_so_far_def)
next
  case (snoc v vs)
  then show ?case
    using float_lt_numbers [of v "lowest_so_far vs"] by (simp add: lowest_so_far_snoc)
qed

lemma lowest_so_far_member: "lowest_so_far vs \<in> set (PosInf # vs)"
proof (induction vs rule: rev_induct)
  case Nil
  show ?case by (simp add: lowest_so_far_def)
next
  case (snoc v vs)
  then show ?case by (auto simp: lowest_so_far_snoc)
qed

lemma lowest_so_far_bound: "x \<in> set vs \<Longrightarrow> \<not> float_lt x (lowest_so_far vs)"
proof (induction vs rule: rev_induct)
  case Nil
  then show ?case by simp
next
  case (snoc v vs)
  show ?case
  proof (cases "float_lt v (lowest_so_far vs)")
    case True
    have "\<not> float_lt x v"
    proof (cases "x = v")
      case True
      then show ?thesis by (cases v) simp_all
    next
      case False
      with snoc.prems have "x \<in> set vs" by simp
      with snoc.IH have "\<not> float_lt x (lowest_so_far vs)" by simp
      with True show ?thesis using float_lt_trans by blast
    qed
    with True show ?thesis by (simp add: lowest_so_far_snoc)
  next
    case False
    show ?thesis
    proof (cases "x = v")
      case True
      with False show ?thesis by (simp add: lowest_so_far_snoc)
    next
      case nv: False
      with snoc.prems have "x \<in> set vs" by simp
      with snoc.IH False show ?thesis by (simp add: lowest_so_far_snoc)
    qed
  qed
qed

lemma below_lowest_so_far:
  "float_lt v (lowest_so_far vs) =
   (float_lt v PosInf \<and> (\<forall>x\<in>set vs. x \<noteq> NaN \<longrightarrow> float_lt v x))"
proof
  assume lt: "float_lt v (lowest_so_far vs)"
  from float_lt_numbers [OF lt] have "float_lt v PosInf" by (simp add: float_lt_PosInf)
  moreover have "float_lt v x" if x: "x \<in> set vs" and n: "x \<noteq> NaN" for x
  proof -
    from lowest_so_far_bound [OF x] float_lt_total [OF lowest_so_far_number n, of vs]
    have "float_lt (lowest_so_far vs) x \<or> lowest_so_far vs = x" by blast
    with lt show ?thesis using float_lt_trans by blast
  qed
  ultimately show "float_lt v PosInf \<and> (\<forall>x\<in>set vs. x \<noteq> NaN \<longrightarrow> float_lt v x)" by blast
next
  assume a: "float_lt v PosInf \<and> (\<forall>x\<in>set vs. x \<noteq> NaN \<longrightarrow> float_lt v x)"
  from lowest_so_far_member [of vs]
  have "lowest_so_far vs = PosInf \<or> lowest_so_far vs \<in> set vs" by simp
  with a lowest_so_far_number [of vs] show "float_lt v (lowest_so_far vs)" by metis
qed

lemma new_minima_snoc:
  "new_minima (vs @ [v]) =
   new_minima vs @
   (if float_lt v PosInf \<and> (\<forall>x\<in>set vs. x \<noteq> NaN \<longrightarrow> float_lt v x)
    then [Suc (length vs)] else [])"
proof -
  let ?P = "\<lambda>ws k. float_lt (ws ! k) PosInf \<and> (\<forall>j<k. ws ! j \<noteq> NaN \<longrightarrow> float_lt (ws ! k) (ws ! j))"
  have a: "filter (?P (vs @ [v])) [0..<length vs] = filter (?P vs) [0..<length vs]"
    by (rule filter_cong) (auto simp: nth_append)
  have b: "?P (vs @ [v]) (length vs) =
           (float_lt v PosInf \<and> (\<forall>x\<in>set vs. x \<noteq> NaN \<longrightarrow> float_lt v x))"
    by (auto simp: nth_append all_set_conv_all_nth)
  show ?thesis
    unfolding new_minima_def using a b by simp
qed

lemma set_new_minima:
  "(Suc k \<in> set (new_minima vs)) =
   (k < length vs \<and> float_lt (vs ! k) PosInf \<and>
    (\<forall>j<k. vs ! j \<noteq> NaN \<longrightarrow> float_lt (vs ! k) (vs ! j)))"
  by (auto simp: new_minima_def)

lemma new_minima_bounds: "e \<in> set (new_minima vs) \<Longrightarrow> 1 \<le> e \<and> e \<le> length vs"
  by (auto simp: new_minima_def)

lemma set_strict_minima:
  "(Suc k \<in> set (strict_minima vs)) =
   (k < length vs \<and> (\<forall>j<k. float_lt (vs ! k) (vs ! j)))"
  by (auto simp: strict_minima_def)

lemma new_minima_finite: "new_minima (map Fin qs) = strict_minima (map Fin qs)"
  unfolding new_minima_def strict_minima_def
  by (rule arg_cong [of _ _ "map Suc"], rule filter_cong) auto

lemma lowest_so_far_finite:
  "lowest_so_far (map Fin qs) = (if qs = [] then PosInf else Fin (Min (set qs)))"
proof (induction qs rule: rev_induct)
  case Nil
  show ?case by (simp add: lowest_so_far_def)
next
  case (snoc q qs)
  have s: "lowest_so_far (map Fin (qs @ [q])) =
           (if float_lt (Fin q) (lowest_so_far (map Fin qs)) then Fin q
            else lowest_so_far (map Fin qs))"
    using lowest_so_far_snoc [of "map Fin qs" "Fin q"] by simp
  show ?case
  proof (cases "qs = []")
    case True
    with s show ?thesis by (simp add: lowest_so_far_def)
  next
    case False
    define M where "M = Min (set qs)"
    have l: "lowest_so_far (map Fin qs) = Fin M" using snoc.IH False by (simp add: M_def)
    have "Min (set (qs @ [q])) = min q M" unfolding M_def using False by simp
    then have r: "(if qs @ [q] = [] then PosInf else Fin (Min (set (qs @ [q])))) = Fin (min q M)"
      by simp
    show ?thesis unfolding s l r by (simp add: min_def)
  qed
qed

lemma epoch_step_cases:
  assumes "epoch_step L args_loss train_dl validation_dl epoch st = (r, st')"
  obtains (failed) e where "r = Some e" "val_losses st' = val_losses st"
      "min_loss st' = min_loss st" "checkpoints st' = checkpoints st"
  | (saved) v ms where "val_losses st' = val_losses st @ [v]"
      "float_lt v (min_loss st)" "min_loss st' = v"
      "checkpoints st' = checkpoints st @ [(Suc epoch, model st', ms)]" "m_val_loss ms = v"
  | (kept) v where "r = None" "val_losses st' = val_losses st @ [v]"
      "\<not> float_lt v (min_loss st)" "min_loss st' = min_loss st"
      "checkpoints st' = checkpoints st"
  using assms unfolding epoch_step_def Let_def
  by (auto split: sum.splits if_splits)

lemma checkpoint_losses_kept:
  assumes c: "map fst (checkpoints st) = new_minima (val_losses st)"
      and l: "list_all (\<lambda>c. m_val_loss (snd (snd c)) = val_losses st ! (fst c - 1)) (checkpoints st)"
  shows "list_all (\<lambda>c. m_val_loss (snd (snd c)) = (val_losses st @ [v]) ! (fst c - 1))
           (checkpoints st)"
  unfolding list_all_iff
proof
  fix c assume cin: "c \<in> set (checkpoints st)"
  then have "fst c \<in> set (new_minima (val_losses st))" using c by (metis image_eqI set_map)
  then have "fst c - 1 < length (val_losses st)"
    using new_minima_bounds [of "fst c" "val_losses st"] by linarith
  moreover have "m_val_loss (snd (snd c)) = val_losses st ! (fst c - 1)"
    using l cin by (simp add: list_all_iff)
  ultimately show "m_val_loss (snd (snd c)) = (val_losses st @ [v]) ! (fst c - 1)"
    by (simp add: nth_append)
qed

lemma epoch_step_invar:
  assumes inv: "train_invar st" and ep: "epoch = length (val_losses st)"
      and step: "epoch_step L args_loss train_dl validation_dl epoch st = (r, st')"
  shows "train_invar st' \<and> length (val_losses st') \<le> Suc epoch \<and>
         (r = None \<longrightarrow> length (val_losses st') = Suc epoch)"
  using step
proof (cases rule: epoch_step_cases)
  case (failed e)
  with inv ep show ?thesis by (simp add: train_invar_def)
next
  case (saved v ms)
  from inv have c: "map fst (checkpoints st) = new_minima (val_losses st)"
    and m: "min_loss st = lowest_so_far (val_losses st)"
    and l: "list_all (\<lambda>c. m_val_loss (snd (snd c)) = val_losses st ! (fst c - 1)) (checkpoints st)"
    by (simp_all add: train_invar_def)
  from saved(2) m have lt: "float_lt v (lowest_so_far (val_losses st))" by simp
  then have cond: "float_lt v PosInf \<and> (\<forall>x\<in>set (val_losses st). x \<noteq> NaN \<longrightarrow> float_lt v x)"
    using below_lowest_so_far [of v "val_losses st"] by blast
  have "new_minima (val_losses st @ [v]) = new_minima (val_losses st) @ [Suc (length (val_losses st))]"
    by (subst new_minima_snoc) (simp only: if_P [OF cond])
  then have c': "map fst (checkpoints st') = new_minima (val_losses st')"
    using saved c ep by simp
  have "lowest_so_far (val_losses st @ [v]) = v"
    by (subst lowest_so_far_snoc) (simp only: if_P [OF lt])
  then have m': "min_loss st' = lowest_so_far (val_losses st')"
    using saved by simp
  have l': "list_all (\<lambda>c. m_val_loss (snd (snd c)) = val_losses st' ! (fst c - 1)) (checkpoints st')"
    using saved checkpoint_losses_kept [OF c l, of v] ep by simp
  from c' m' l' saved ep show ?thesis by (simp add: train_invar_def)
next
  case (kept v)
  from inv have c: "map fst (checkpoints st) = new_minima (val_losses st)"
    and m: "min_loss st = lowest_so_far (val_losses st)"
    and l: "list_all (\<lambda>c. m_val_loss (snd (snd c)) = val_losses st ! (fst c - 1)) (checkpoints st)"
    by (simp_all add: train_invar_def)
  from kept(3) m have nlt: "\<not> float_lt v (lowest_so_far (val_losses st))" by simp
  then have ncond:
    "\<not> (float_lt v PosInf \<and> (\<forall>x\<in>set (val_losses st). x \<noteq> NaN \<longrightarrow> float_lt v x))"
    using below_lowest_so_far [of v "val_losses st"] by blast
  have "new_minima (val_losses st @ [v]) = new_minima (val_losses st)"
    by (subst new_minima_snoc) (simp only: if_not_P [OF ncond] append_Nil2)
  then have c': "map fst (checkpoints st') = new_minima (val_losses st')"
    using kept c by simp
  have "lowest_so_far (val_losses st @ [v]) = lowest_so_far (val_losses st)"
    by (subst lowest_so_far_snoc) (simp only: if_not_P [OF nlt])
  then have m': "min_loss st' = lowest_so_far (val_losses st')"
    using kept m by simp
  have l': "list_all (\<lambda>c. m_val_loss (snd (snd c)) = val_losses st' ! (fst c - 1)) (checkpoints st')"
    using kept checkpoint_losses_kept [OF c l, of v] by simp
  from c' m' l' kept ep show ?thesis by (simp add: train_invar_def)
qed

lemma epochs_invar:
  assumes "train_invar st" "length (val_losses st) = i"
      and "epochs L args_loss train_dl validation_dl [i..<n] st = (r, st')"
  shows "train_invar st' \<and> length (val_losses st') \<le> max i n \<and>
         (r = None \<longrightarrow> length (val_losses st') = max i n)"
  using assms
proof (induction "n - i" arbitrary: i st)
  case 0
  then show ?case by simp
next
  case (Suc d)
  then have lt: "i < n" by simp
  then have up: "[i..<n] = i # [Suc i..<n]" by (simp add: upt_conv_Cons)
  obtain r1 st1 where s1: "epoch_step L args_loss (train_dl i) validation_dl i st = (r1, st1)"
    by (cases "epoch_step L args_loss (train_dl i) validation_dl i st") auto
  from epoch_step_invar [OF Suc.prems(1) Suc.prems(2) [symmetric] s1]
  have inv1: "train_invar st1" and le1: "length (val_losses st1) \<le> Suc i"
    and eq1: "r1 = None \<longrightarrow> length (val_losses st1) = Suc i" by simp_all
  show ?case
  proof (cases r1)
    case None
    with Suc.prems(3) up s1
    have rest: "epochs L args_loss train_dl validation_dl [Suc i..<n] st1 = (r, st')" by simp
    have d: "d = n - Suc i" using Suc.hyps(2) by simp
    from None eq1 have len1: "length (val_losses st1) = Suc i" by simp
    from Suc.hyps(1) [OF d inv1 len1 rest] lt show ?thesis by (simp add: max_def)
  next
    case (Some e)
    with Suc.prems(3) up s1 have "r = Some e" "st' = st1" by simp_all
    with inv1 le1 lt show ?thesis by (simp add: max_def)
  qed
qed

text \<open>
  Claim C4, as the code has it. However the run of \<open>train\<close> ends, \<open>min_loss\<close> is one of
  infinity and the validation losses of the epochs completed, is not not-a-number, and
  no validation loss so far compares below it; the epochs whose checkpoint (state dict
  and \<open>metrics.json\<close>) was written are exactly the epochs whose validation loss compares
  below infinity and strictly below every earlier validation loss that is a number;
  the \<open>metrics.json\<close> of a checkpoint holds the validation loss of its epoch; and a run
  that ends without an exception has completed all \<open>num_epochs\<close> epochs. When every
  validation loss is a finite number this is the claim as stated: a checkpoint is
  written in exactly the epochs whose validation loss is strictly lower than that of
  every earlier epoch, and \<open>min_loss\<close> is the minimum validation loss so far, infinity
  before the first epoch.
\<close>

theorem checkpoint_iff_new_minimum:
  assumes "train L args_loss num_epochs train_dl validation_dl w = (r, st)"
  shows "length (val_losses st) \<le> num_epochs \<and>
         (r = None \<longrightarrow> length (val_losses st) = num_epochs) \<and>
         min_loss st \<in> set (PosInf # val_losses st) \<and> min_loss st \<noteq> NaN \<and>
         (\<forall>v\<in>set (val_losses st). \<not> float_lt v (min_loss st)) \<and>
         map fst (checkpoints st) = new_minima (val_losses st) \<and>
         (\<forall>k. (Suc k \<in> set (map fst (checkpoints st))) =
              (k < length (val_losses st) \<and> float_lt (val_losses st ! k) PosInf \<and>
               (\<forall>j<k. val_losses st ! j \<noteq> NaN \<longrightarrow>
                  float_lt (val_losses st ! k) (val_losses st ! j)))) \<and>
         list_all (\<lambda>c. m_val_loss (snd (snd c)) = val_losses st ! (fst c - 1)) (checkpoints st) \<and>
         (\<forall>qs. val_losses st = map Fin qs \<longrightarrow>
              map fst (checkpoints st) = strict_minima (val_losses st) \<and>
              (\<forall>k. (Suc k \<in> set (map fst (checkpoints st))) =
                   (k < length qs \<and> (\<forall>j<k. qs ! k < qs ! j))) \<and>
              min_loss st = (if qs = [] then PosInf else Fin (Min (set qs))))"
proof -
  let ?st0 = "\<lparr>model = w, min_loss = PosInf, train_losses = [], val_losses = [],
                train_dices = [], val_dices = [], checkpoints = []\<rparr>"
  have i0: "train_invar ?st0"
    by (simp add: train_invar_def new_minima_def lowest_so_far_def)
  have l0: "length (val_losses ?st0) = 0" by simp
  have run: "epochs L args_loss train_dl validation_dl [0..<num_epochs] ?st0 = (r, st)"
    using assms by (simp add: train_def)
  from epochs_invar [OF i0 l0 run]
  have inv: "train_invar st" and le: "length (val_losses st) \<le> num_epochs"
    and eq: "r = None \<longrightarrow> length (val_losses st) = num_epochs" by simp_all
  from inv have c: "map fst (checkpoints st) = new_minima (val_losses st)"
    and m: "min_loss st = lowest_so_far (val_losses st)"
    and l: "list_all (\<lambda>c. m_val_loss (snd (snd c)) = val_losses st ! (fst c - 1)) (checkpoints st)"
    by (simp_all add: train_invar_def)
  have m1: "min_loss st \<in> set (PosInf # val_losses st)"
    unfolding m by (rule lowest_so_far_member)
  have m2: "min_loss st \<noteq> NaN"
    unfolding m by (rule lowest_so_far_number)
  have m3: "\<forall>v\<in>set (val_losses st). \<not> float_lt v (min_loss st)"
    unfolding m using lowest_so_far_bound by blast
  have s: "\<forall>k. (Suc k \<in> set (map fst (checkpoints st))) =
              (k < length (val_losses st) \<and> float_lt (val_losses st ! k) PosInf \<and>
               (\<forall>j<k. val_losses st ! j \<noteq> NaN \<longrightarrow>
                  float_lt (val_losses st ! k) (val_losses st ! j)))"
    unfolding c using set_new_minima by blast
  have f: "map fst (checkpoints st) = strict_minima (val_losses st) \<and>
           (\<forall>k. (Suc k \<in> set (map fst (checkpoints st))) =
                (k < length qs \<and> (\<forall>j<k. qs ! k < qs ! j))) \<and>
           min_loss st = (if qs = [] then PosInf else Fin (Min (set qs)))"
    if v: "val_losses st = map Fin qs" for qs
  proof -
    have f1: "map fst (checkpoints st) = strict_minima (val_losses st)"
      unfolding c v by (rule new_minima_finite)
    have f2: "(Suc k \<in> set (map fst (checkpoints st))) =
              (k < length qs \<and> (\<forall>j<k. qs ! k < qs ! j))" for k
      unfolding f1 v set_strict_minima by auto
    have f3: "min_loss st = (if qs = [] then PosInf else Fin (Min (set qs)))"
      unfolding m v by (rule lowest_so_far_finite)
    from f1 f2 f3 show ?thesis by blast
  qed
  from le eq m1 m2 m3 c s l f show ?thesis by blast
qed

theorem checkpoint_iff_new_minimum_witness:
  "fst toy_run = None \<and>
   val_losses (snd toy_run) = map Fin [1, 0, 1] \<and>
   map fst (checkpoints (snd toy_run)) = [1, 2] \<and>
   map fst (checkpoints (snd toy_run)) = strict_minima (val_losses (snd toy_run)) \<and>
   map fst (checkpoints (snd toy_run)) = new_minima (val_losses (snd toy_run)) \<and>
   min_loss (snd toy_run) = Fin 0"
proof -
  have t: "train toy_learner ''dice'' 3 (\<lambda>epoch. [(0, Fin 2)]) [(0, Fin 2)] 0 =
           (fst toy_run, snd toy_run)"
    by (simp add: toy_run_def)
  have a: "fst toy_run = None" by code_simp
  have b: "val_losses (snd toy_run) = map Fin [1, 0, 1]" by code_simp
  have c: "map fst (checkpoints (snd toy_run)) = [1, 2]" by code_simp
  have d: "min_loss (snd toy_run) = Fin 0" by code_simp
  from checkpoint_iff_new_minimum [OF t] b
  have "map fst (checkpoints (snd toy_run)) = new_minima (val_losses (snd toy_run)) \<and>
        map fst (checkpoints (snd toy_run)) = strict_minima (val_losses (snd toy_run))"
    by blast
  with a b c d show ?thesis by blast
qed

text \<open>
  The claim as stated fails when a validation loss is not-a-number. In a run of one
  epoch whose validation loss is not-a-number no checkpoint is written, although there
  is no earlier epoch. In a run with the validation losses \<open>1, nan, 1/3\<close> the third epoch
  is saved, although its loss does not compare lower than the loss of the second.
\<close>

theorem checkpoint_nan_counterexample:
  "fst nan_first_run = None \<and>
   val_losses (snd nan_first_run) = [NaN] \<and>
   strict_minima (val_losses (snd nan_first_run)) = [1] \<and>
   map fst (checkpoints (snd nan_first_run)) = [] \<and>
   fst nan_second_run = None \<and>
   val_losses (snd nan_second_run) = [Fin 1, NaN, Fin (1 / 3)] \<and>
   strict_minima (val_losses (snd nan_second_run)) = [1] \<and>
   map fst (checkpoints (snd nan_second_run)) = [1, 3]"
proof -
  have a: "fst nan_first_run = None" by code_simp
  have b: "val_losses (snd nan_first_run) = [NaN]" by code_simp
  have c: "strict_minima [NaN] = [1]" by code_simp
  have d: "map fst (checkpoints (snd nan_first_run)) = []" by code_simp
  have e: "fst nan_second_run = None" by code_simp
  have f: "val_losses (snd nan_second_run) = [Fin 1, NaN, Fin (1 / 3)]" by code_simp
  have g: "strict_minima [Fin 1, NaN, Fin (1 / 3)] = [1]" by code_simp
  have h: "map fst (checkpoints (snd nan_second_run)) = [1, 3]" by code_simp
  from a b c d e f g h show ?thesis by simp
qed

section \<open>Properties of the runtime profiler\<close>

lemma foldl_slice_iter:
  "foldl slice_iter acc cs =
     \<lparr>data_preprocessing_times_slices =
        data_preprocessing_times_slices acc @
          map (\<lambda>c. preprocessing_t1 c - preprocessing_t0 c) cs,
      inference_times_slices =
        inference_times_slices acc @ map (\<lambda>c. inference_t1 c - inference_t0 c) cs,
      data_postprocessing_times_slices =
        data_postprocessing_times_slices acc @
          map (\<lambda>c. postprocessing_t1 c - postprocessing_t0 c) cs\<rparr>"
  by (induction cs arbitrary: acc) (simp_all add: slice_iter_def)

lemma patient_iter_sums:
  "patient_iter acc p =
     \<lparr>loading_times = loading_times acc @ [loading_time_t1 p - loading_time_t0 p],
      data_preprocessing_times =
        data_preprocessing_times acc @
          [\<Sum>c\<leftarrow>slice_clocks p. preprocessing_t1 c - preprocessing_t0 c],
      inference_times =
        inference_times acc @ [\<Sum>c\<leftarrow>slice_clocks p. inference_t1 c - inference_t0 c],
      data_postprocessing_times =
        data_postprocessing_times acc @
          [\<Sum>c\<leftarrow>slice_clocks p. postprocessing_t1 c - postprocessing_t0 c],
      total_times = total_times acc @ [total_time_t1 p - total_time_t0 p]\<rparr>"
  by (simp add: patient_iter_def Let_def foldl_slice_iter py_sum_sum_list)

lemma foldl_patient_iter:
  "foldl patient_iter acc ps =
     \<lparr>loading_times = loading_times acc @ map (\<lambda>p. loading_time_t1 p - loading_time_t0 p) ps,
      data_preprocessing_times =
        data_preprocessing_times acc @
          map (\<lambda>p. \<Sum>c\<leftarrow>slice_clocks p. preprocessing_t1 c - preprocessing_t0 c) ps,
      inference_times =
        inference_times acc @
          map (\<lambda>p. \<Sum>c\<leftarrow>slice_clocks p. inference_t1 c - inference_t0 c) ps,
      data_postprocessing_times =
        data_postprocessing_times acc @
          map (\<lambda>p. \<Sum>c\<leftarrow>slice_clocks p. postprocessing_t1 c - postprocessing_t0 c) ps,
      total_times = total_times acc @ map (\<lambda>p. total_time_t1 p - total_time_t0 p) ps\<rparr>"
proof (induction ps arbitrary: acc)
  case Nil
  then show ?case by simp
next
  case (Cons p ps)
  show ?case
    by (simp only: foldl_Cons Cons.IH) (simp add: patient_iter_sums)
qed

lemma py_div_mean:
  "ps \<noteq> [] \<Longrightarrow> py_div (py_sum (map f ps)) (length ps) = Inr (arithmetic_mean (map f ps))"
  by (simp add: py_div_def py_sum_sum_list arithmetic_mean_def)

lemma averages_of_run:
  "averages (foldl patient_iter no_times ps) =
     (if ps = [] \<or> total_time (stage_means ps) = 0 then Inl ZeroDivisionError
      else Inr (stage_means ps))"
proof (cases "ps = []")
  case True
  then show ?thesis by (simp add: averages_def no_times_def py_div_def)
next
  case False
  then show ?thesis
    by (simp add: averages_def foldl_patient_iter no_times_def py_div_mean stage_means_def)
qed

text \<open>
  Claim C5. A run of either profiler over the readings of \<open>n\<close> patients reports, for
  loading, preprocessing, inference and postprocessing (and for the total time), the
  arithmetic mean over the patients of the patient's stage total: the loading total is
  the one difference of readings taken around \<open>nrrd.read\<close>, the three other totals are
  the sums over the slices of the volume of the per-slice differences. The profiler
  raises ZeroDivisionError instead when there is no patient or the mean total time is
  zero.
\<close>

theorem profiler_reports_stage_means:
  "perform_runtime_analysis_unet ps =
     (if ps = [] \<or> total_time (stage_means ps) = 0 then Inl ZeroDivisionError
      else Inr (stage_means ps)) \<and>
   perform_runtime_analysis_segformer ps =
     (if ps = [] \<or> total_time (stage_means ps) = 0 then Inl ZeroDivisionError
      else Inr (stage_means ps))"
  by (simp only: perform_runtime_analysis_unet_def perform_runtime_analysis_segformer_def
        averages_of_run)

theorem profiler_reports_stage_means_witness:
  "perform_runtime_analysis_unet two_patients =
     Inr \<lparr>loading_time = 2, data_preprocessing_time = 5 / 2, inference_time = 5,
          data_postprocessing_time = 3 / 2, total_time = 11\<rparr> \<and>
   perform_runtime_analysis_segformer two_patients = perform_runtime_analysis_unet two_patients \<and>
   perform_runtime_analysis_unet [] = Inl ZeroDivisionError"
proof -
  have s: "stage_means two_patients =
     \<lparr>loading_time = 2, data_preprocessing_time = 5 / 2, inference_time = 5,
      data_postprocessing_time = 3 / 2, total_time = 11\<rparr>"
    by (simp add: stage_means_def arithmetic_mean_def two_patients_def clock_a_def clock_b_def)
  have n: "two_patients \<noteq> []" by (simp add: two_patients_def)
  from profiler_reports_stage_means [of two_patients] profiler_reports_stage_means [of "[]"] s n
  show ?thesis by simp
qed

section \<open>Properties of the model-name dispatch\<close>

lemma runtime_dispatch_error:
  assumes "runtime_dispatch unet segformer name = Inl e"
  shows "(sublist ''unet2d'' name \<and> unet name = Inl e) \<or>
         (sublist ''segformer'' name \<and> segformer name = Inl e)"
  using assms by (auto simp: runtime_dispatch_def split: if_splits sum.splits)

lemma parameters_dispatch_error:
  assumes "parameters_dispatch get_unet get_segformer var name = Inl e"
  shows "(sublist ''unet2d'' name \<and> get_unet name = Inl e) \<or>
         (sublist ''segformer'' name \<and> get_segformer name = Inl e)"
  using assms by (auto simp: parameters_dispatch_def split: if_splits sum.splits)

lemma runtime_main_error:
  assumes "runtime_main unet segformer names = Inl e"
  shows "\<exists>name\<in>set names. unet name = Inl e \<or> segformer name = Inl e"
  using assms
proof (induction names)
  case Nil
  then show ?case by simp
next
  case (Cons name names)
  show ?case
  proof (cases "runtime_dispatch unet segformer name")
    case (Inl e')
    with Cons.prems have "e' = e" by simp
    with Inl runtime_dispatch_error [of unet segformer name e] show ?thesis by auto
  next
    case (Inr evs)
    with Cons.prems have "runtime_main unet segformer names = Inl e"
      by (simp split: sum.splits)
    with Cons.IH show ?thesis by auto
  qed
qed

text \<open>
  Claim C9. In both scripts the dispatch on a model name raises only what one of the
  two called functions raises: the \<open>ValueError\<close> of the \<open>else\<close> branch is built and
  dropped. A name containing neither \<open>unet2d\<close> nor \<open>segformer\<close> passes with nothing done
  but the dropped exception, and a name containing \<open>unet2d\<close> but not \<open>segformer\<close> has
  its U-Net call made first and then reaches the same \<open>else\<close> branch. The whole loop of
  \<open>runtime.py\<close> likewise fails only with an exception of a called function.
\<close>

theorem dispatch_drops_value_error:
  "(runtime_dispatch unet segformer name = Inl e \<longrightarrow>
      (sublist ''unet2d'' name \<and> unet name = Inl e) \<or>
      (sublist ''segformer'' name \<and> segformer name = Inl e)) \<and>
   (\<not> sublist ''unet2d'' name \<and> \<not> sublist ''segformer'' name \<longrightarrow>
      runtime_dispatch unet segformer name =
        Inr [Dropped (ValueError ''Model not recognized.'')]) \<and>
   (sublist ''unet2d'' name \<and> \<not> sublist ''segformer'' name \<and> unet name = Inr r \<longrightarrow>
      runtime_dispatch unet segformer name =
        Inr [Unet name r, Dropped (ValueError ''Model not recognized.'')]) \<and>
   (runtime_main unet segformer names = Inl e \<longrightarrow>
      (\<exists>n\<in>set names. unet n = Inl e \<or> segformer n = Inl e)) \<and>
   (parameters_dispatch get_unet get_segformer var name = Inl e \<longrightarrow>
      (sublist ''unet2d'' name \<and> get_unet name = Inl e) \<or>
      (sublist ''segformer'' name \<and> get_segformer name = Inl e)) \<and>
   (\<not> sublist ''unet2d'' name \<and> \<not> sublist ''segformer'' name \<longrightarrow>
      parameters_dispatch get_unet get_segformer var name =
        Inr (var, [ValueError ''Model name not recognized''])) \<and>
   (sublist ''unet2d'' name \<and> \<not> sublist ''segformer'' name \<and> get_unet name = Inr m \<longrightarrow>
      parameters_dispatch get_unet get_segformer var name =
        Inr (Some m, [ValueError ''Model name not recognized'']))"
proof -
  have a: "runtime_dispatch unet segformer name = Inl e \<longrightarrow>
      (sublist ''unet2d'' name \<and> unet name = Inl e) \<or>
      (sublist ''segformer'' name \<and> segformer name = Inl e)"
    using runtime_dispatch_error [of unet segformer name e] by blast
  have b: "\<not> sublist ''unet2d'' name \<and> \<not> sublist ''segformer'' name \<longrightarrow>
      runtime_dispatch unet segformer name =
        Inr [Dropped (ValueError ''Model not recognized.'')]"
    by (simp add: runtime_dispatch_def)
  have c: "sublist ''unet2d'' name \<and> \<not> sublist ''segformer'' name \<and> unet name = Inr r \<longrightarrow>
      runtime_dispatch unet segformer name =
        Inr [Unet name r, Dropped (ValueError ''Model not recognized.'')]"
    by (simp add: runtime_dispatch_def)
  have d: "runtime_main unet segformer names = Inl e \<longrightarrow>
      (\<exists>n\<in>set names. unet n = Inl e \<or> segformer n = Inl e)"
    using runtime_main_error [of unet segformer names e] by blast
  have f: "parameters_dispatch get_unet get_segformer var name = Inl e \<longrightarrow>
      (sublist ''unet2d'' name \<and> get_unet name = Inl e) \<or>
      (sublist ''segformer'' name \<and> get_segformer name = Inl e)"
    using parameters_dispatch_error [of get_unet get_segformer var name e] by blast
  have g: "\<not> sublist ''unet2d'' name \<and> \<not> sublist ''segformer'' name \<longrightarrow>
      parameters_dispatch get_unet get_segformer var name =
        Inr (var, [ValueError ''Model name not recognized''])"
    by (simp add: parameters_dispatch_def)
  have h: "sublist ''unet2d'' name \<and> \<not> sublist ''segformer'' name \<and> get_unet name = Inr m \<longrightarrow>
      parameters_dispatch get_unet get_segformer var name =
        Inr (Some m, [ValueError ''Model name not recognized''])"
    by (simp add: parameters_dispatch_def)
  from a b c d f g h show ?thesis by blast
qed

theorem dispatch_drops_value_error_witness:
  "runtime_dispatch missing_file three_patients ''unet2d_dice'' = Inl FileNotFoundError \<and>
   runtime_dispatch three_patients three_patients ''resnet'' =
     Inr [Dropped (ValueError ''Model not recognized.'')] \<and>
   runtime_dispatch three_patients three_patients ''unet2d_dice'' =
     Inr [Unet ''unet2d_dice'' 3, Dropped (ValueError ''Model not recognized.'')] \<and>
   runtime_main missing_file three_patients [''resnet'', ''unet2d_dice''] = Inl FileNotFoundError \<and>
   parameters_dispatch no_model tiny_model None ''unet2d_dice'' = Inl FileNotFoundError \<and>
   parameters_dispatch tiny_model tiny_model None ''resnet'' =
     Inr (None, [ValueError ''Model name not recognized'']) \<and>
   parameters_dispatch tiny_model tiny_model None ''unet2d_dice'' =
     Inr (Some [\<lparr>numel = 6, requires_grad = True\<rparr>, \<lparr>numel = 4, requires_grad = False\<rparr>],
          [ValueError ''Model name not recognized''])"
proof -
  have s1: "sublist ''unet2d'' ''unet2d_dice''" by code_simp
  have s2: "\<not> sublist ''segformer'' ''unet2d_dice''" by code_simp
  have s3: "\<not> sublist ''unet2d'' ''resnet''" by code_simp
  have s4: "\<not> sublist ''segformer'' ''resnet''" by code_simp
  have e1: "runtime_dispatch missing_file three_patients ''unet2d_dice'' = Inl FileNotFoundError"
    using s1 by (simp add: runtime_dispatch_def missing_file_def)
  have e2: "runtime_main missing_file three_patients [''resnet'', ''unet2d_dice''] =
            Inl FileNotFoundError"
    using s1 s3 s4 by (simp add: runtime_dispatch_def missing_file_def)
  have e3: "parameters_dispatch no_model tiny_model None ''unet2d_dice'' = Inl FileNotFoundError"
    using s1 by (simp add: parameters_dispatch_def no_model_def)
  have u: "three_patients ''unet2d_dice'' = Inr 3" by (simp add: three_patients_def)
  have t: "tiny_model ''unet2d_dice'' =
           Inr [\<lparr>numel = 6, requires_grad = True\<rparr>, \<lparr>numel = 4, requires_grad = False\<rparr>]"
    by (simp add: tiny_model_def)
  from dispatch_drops_value_error
         [of three_patients three_patients "''resnet''" _ _ _ tiny_model tiny_model None]
       s3 s4
  have n: "runtime_dispatch three_patients three_patients ''resnet'' =
             Inr [Dropped (ValueError ''Model not recognized.'')] \<and>
           parameters_dispatch tiny_model tiny_model None ''resnet'' =
             Inr (None, [ValueError ''Model name not recognized''])"
    by blast
  from dispatch_drops_value_error
         [of three_patients three_patients "''unet2d_dice''" _ 3 _ tiny_model tiny_model None
             "[\<lparr>numel = 6, requires_grad = True\<rparr>, \<lparr>numel = 4, requires_grad = False\<rparr>]"]
       s1 s2 u t
  have y: "runtime_dispatch three_patients three_patients ''unet2d_dice'' =
             Inr [Unet ''unet2d_dice'' 3, Dropped (ValueError ''Model not recognized.'')] \<and>
           parameters_dispatch tiny_model tiny_model None ''unet2d_dice'' =
             Inr (Some [\<lparr>numel = 6, requires_grad = True\<rparr>, \<lparr>numel = 4, requires_grad = False\<rparr>],
                  [ValueError ''Model name not recognized''])"
    by blast
  from e1 e2 e3 n y show ?thesis by blast
qed

section \<open>Properties of the parameter counter\<close>

lemma num_model_parameters_sum_list:
  "num_model_parameters ps = sum_list (map numel (filter requires_grad ps))"
  by (simp add: num_model_parameters_def py_sum_sum_list)

lemma num_model_parameters_append:
  "num_model_parameters (xs @ ys) = num_model_parameters xs + num_model_parameters ys"
  by (simp add: num_model_parameters_sum_list)

text \<open>
  Claim C6. The count printed for a loaded model is the sum of \<open>numel\<close> over exactly the
  parameters whose \<open>requires_grad\<close> is true: a parameter adds its \<open>numel\<close> if the flag
  is set and nothing otherwise, so dropping the frozen parameters leaves the count
  unchanged, the frozen parameters alone count 0, and a frozen parameter anywhere in
  the list does not change the count.
\<close>

theorem trainable_parameter_count:
  "num_model_parameters ps = (\<Sum>p\<leftarrow>ps. if requires_grad p then numel p else 0) \<and>
   num_model_parameters (filter requires_grad ps) = num_model_parameters ps \<and>
   num_model_parameters (filter (\<lambda>p. \<not> requires_grad p) ps) = 0 \<and>
   num_model_parameters (xs @ \<lparr>numel = n, requires_grad = False\<rparr> # ys) =
     num_model_parameters (xs @ ys)"
proof -
  have a: "num_model_parameters ps = (\<Sum>p\<leftarrow>ps. if requires_grad p then numel p else 0)"
    unfolding num_model_parameters_sum_list by (induction ps) simp_all
  have b: "num_model_parameters (filter requires_grad ps) = num_model_parameters ps"
    by (simp add: num_model_parameters_sum_list)
  have c: "num_model_parameters (filter (\<lambda>p. \<not> requires_grad p) ps) = 0"
    unfolding num_model_parameters_sum_list by (induction ps) simp_all
  have d: "num_model_parameters (xs @ \<lparr>numel = n, requires_grad = False\<rparr> # ys) =
     num_model_parameters (xs @ ys)"
    by (simp add: num_model_parameters_sum_list)
  from a b c d show ?thesis by blast
qed

end
